theory Spec2Isabelle
  imports Complex_Main "HOL-Library.Word"
begin

section \<open>Byte buffers and the Python operations the scripts use on them\<close>

text \<open>
  The scripts under \<^verbatim>\<open>examples/\<close> and \<^verbatim>\<open>server/scripts/\<close> accumulate the camera's
  HTTP body in a Python \<^verbatim>\<open>bytes\<close> object. A byte is an 8-bit word and a buffer a list
  of bytes. \<^verbatim>\<open>bytes.find(sub)\<close> returns the lowest index at which \<^verbatim>\<open>sub\<close> occurs and
  \<^verbatim>\<open>-1\<close> when it does not occur, so its result is an \<^typ>\<open>int\<close>.
\<close>

type_synonym byte = "8 word"

fun find_from :: "'a list \<Rightarrow> 'a list \<Rightarrow> nat \<Rightarrow> int" where
  "find_from sub [] i = (if sub = [] then int i else -1)"
| "find_from sub (x # xs) i =
     (if take (length sub) (x # xs) = sub then int i else find_from sub xs (Suc i))"

definition bytes_find :: "byte list \<Rightarrow> byte list \<Rightarrow> int" where
  "bytes_find bytes_data sub = find_from sub bytes_data 0"

text \<open>
  Python slicing \<^verbatim>\<open>b[i:j]\<close> and \<^verbatim>\<open>b[i:]\<close>: a negative index counts from the end,
  and every index is clipped to the length of the buffer.
\<close>

definition py_index :: "nat \<Rightarrow> int \<Rightarrow> nat" where
  "py_index n i = (if i < 0 then nat (int n + i) else nat i)"

definition bytes_slice :: "'a list \<Rightarrow> int \<Rightarrow> int \<Rightarrow> 'a list" where
  "bytes_slice xs i j = drop (py_index (length xs) i) (take (py_index (length xs) j) xs)"

definition bytes_from :: "'a list \<Rightarrow> int \<Rightarrow> 'a list" where
  "bytes_from xs i = drop (py_index (length xs) i) xs"

definition SOI :: "byte list" where
  "SOI = [0xFF, 0xD8]"

definition EOI :: "byte list" where
  "EOI = [0xFF, 0xD9]"

text \<open>
  What the specification calls a start marker at index \<open>s\<close> and an end marker at index
  \<open>e\<close>: the two bytes of the marker stand at that index of the buffer.
\<close>

definition marker_at :: "'a list \<Rightarrow> 'a list \<Rightarrow> nat \<Rightarrow> bool" where
  "marker_at sub bytes_data k = (take (length sub) (drop k bytes_data) = sub)"

definition has_frame_pair :: "byte list \<Rightarrow> bool" where
  "has_frame_pair bytes_data =
     (\<exists>s e. marker_at SOI bytes_data s \<and> marker_at EOI bytes_data e \<and> s < e)"

text \<open>
  A buffer in which \<^verbatim>\<open>find\<close> sees an end marker and no start marker before it.
\<close>

definition end_before_start :: "byte list \<Rightarrow> bool" where
  "end_before_start bytes_data =
     (bytes_find bytes_data EOI \<noteq> -1
      \<and> (bytes_find bytes_data SOI = -1 \<or> bytes_find bytes_data EOI < bytes_find bytes_data SOI))"

section \<open>Exceptions\<close>

text \<open>
  Python exceptions are values. Every constructor stands for a group of subclasses of
  \<^verbatim>\<open>Exception\<close>, which is what the handlers \<^verbatim>\<open>except Exception\<close> of the scripts catch.
  \<open>RequestsTimeout\<close> is every instance of \<^verbatim>\<open>requests.exceptions.Timeout\<close> (a connect
  timeout included: the first handler of \<^verbatim>\<open>log_detection\<close> catches it), and
  \<open>RequestsConnectionError\<close> every other instance of \<^verbatim>\<open>requests.exceptions.ConnectionError\<close>.
  \<^verbatim>\<open>KeyboardInterrupt\<close> is not an \<^verbatim>\<open>Exception\<close> in Python; it reaches the detection loop,
  where it is an event of its own.
\<close>

datatype exn =
    URLError
  | SocketTimeout
  | ConnectionResetError
  | CvError
  | RequestsTimeout
  | RequestsConnectionError
  | JSONDecodeError
  | AttributeError
  | OtherException

section \<open>FrameSource: \<^verbatim>\<open>get_frame_from_stream\<close> of the example scripts\<close>

text \<open>
  \<^verbatim>\<open>FaceDetector.get_frame_from_stream\<close> and \<^verbatim>\<open>MotionDetector.get_frame_from_stream\<close>
  are the same code. The environment of one call is the connection: \<^verbatim>\<open>urlopen\<close> either
  raises or gives a stream, and every \<^verbatim>\<open>stream.read(1024)\<close> either raises or returns a
  chunk; once the listed reads are used up the stream is at its end and \<^verbatim>\<open>read\<close> returns
  the empty chunk. \<^verbatim>\<open>cv2.imdecode\<close> is OpenCV's: it is a parameter that returns an image,
  \<^verbatim>\<open>None\<close> for bytes it cannot decode, or raises.

  The function returns the image (or \<^verbatim>\<open>None\<close>) together with the lines it printed.
\<close>

type_synonym stream = "(exn + byte list) list"

type_synonym connection = "exn + stream"

datatype frame_log = ErrorGettingFrame exn

fun read_frames :: "(byte list \<Rightarrow> exn + 'img option) \<Rightarrow> byte list \<Rightarrow> stream \<Rightarrow> exn + 'img option" where
  "read_frames imdecode bytes_data [] = Inr None"
| "read_frames imdecode bytes_data (Inl e # reads) = Inl e"
| "read_frames imdecode bytes_data (Inr chunk # reads) =
     (if chunk = [] then Inr None
      else
        let bytes_data = bytes_data @ chunk;
            jpeg_start = bytes_find bytes_data SOI;
            jpeg_end = bytes_find bytes_data EOI
        in if jpeg_start \<noteq> -1 \<and> jpeg_end \<noteq> -1 \<and> jpeg_end > jpeg_start
           then imdecode (bytes_slice bytes_data jpeg_start (jpeg_end + 2))
           else read_frames imdecode bytes_data reads)"

definition get_frame_from_stream ::
  "(byte list \<Rightarrow> exn + 'img option) \<Rightarrow> connection \<Rightarrow> 'img option \<times> frame_log list" where
  "get_frame_from_stream imdecode urlopen =
     (case (case urlopen of
              Inl e \<Rightarrow> Inl e
            | Inr reads \<Rightarrow> read_frames imdecode [] reads) of
        Inl e \<Rightarrow> (None, [ErrorGettingFrame e])
      | Inr img \<Rightarrow> (img, []))"

section \<open>The minimal server-side script: one scan of its receive buffer\<close>

text \<open>
  \<^verbatim>\<open>detect_faces_from_stream\<close> of the script under \<^verbatim>\<open>server/scripts/\<close> keeps its
  buffer across frames. One pass of its inner loop, after the chunk has been appended:
  the bytes it hands to the decoder (if any) and the buffer it keeps.
\<close>

definition server_scan :: "byte list \<Rightarrow> byte list option \<times> byte list" where
  "server_scan bytes_data =
     (let a = bytes_find bytes_data SOI;
          b = bytes_find bytes_data EOI
      in if a \<noteq> -1 \<and> b \<noteq> -1
         then (Some (bytes_slice bytes_data a (b + 2)), bytes_from bytes_data (b + 2))
         else (None, bytes_data))"

section \<open>Frames and OpenCV\<close>

text \<open>
  A decoded frame carries its shape (\<^verbatim>\<open>image.shape[0]\<close> is the height,
  \<^verbatim>\<open>image.shape[1]\<close> the width) and its pixels. The pixel algorithms are OpenCV's, not the
  repository's: they are the fields of a record of operations, each of which may raise,
  and they receive the tunables the scripts pass to them. A bounding box is the tuple
  \<^verbatim>\<open>(x, y, w, h)\<close> of \<^verbatim>\<open>detectMultiScale\<close>, whose components are numpy \<^verbatim>\<open>int32\<close> scalars:
  32-bit words read as two's complement.
\<close>

record 'px image =
  height :: nat
  width :: nat
  pixels :: 'px

type_synonym int32 = "32 word"

type_synonym box = "int32 \<times> int32 \<times> int32 \<times> int32"

record ('px, 'gray, 'contour) cv2 =
  cvtColor :: "'px image \<Rightarrow> exn + 'gray"
  detectMultiScale :: "'gray \<Rightarrow> real \<Rightarrow> nat \<Rightarrow> nat \<times> nat \<Rightarrow> exn + box list"
  GaussianBlur :: "'gray \<Rightarrow> nat \<times> nat \<Rightarrow> exn + 'gray"
  absdiff :: "'gray \<Rightarrow> 'gray \<Rightarrow> exn + 'gray"
  threshold :: "'gray \<Rightarrow> nat \<Rightarrow> nat \<Rightarrow> exn + 'gray"
  dilate :: "'gray \<Rightarrow> nat \<Rightarrow> exn + 'gray"
  findContours :: "'gray \<Rightarrow> exn + 'contour list"
  contourArea :: "'contour \<Rightarrow> exn + real"

section \<open>Detector, face variant: \<^verbatim>\<open>FaceDetector.detect_faces\<close>\<close>

text \<open>
  Python floats are modelled as real numbers. \<^verbatim>\<open>np.mean\<close> of a non-empty list is its sum
  divided by its length. The product \<^verbatim>\<open>w * h\<close> of line 105 is a product of numpy \<^verbatim>\<open>int32\<close>
  scalars and wraps around at 32 bits; the frame's area is a product of Python integers
  and does not. For a frame of area 0 numpy's division yields \<^verbatim>\<open>inf\<close> or \<^verbatim>\<open>nan\<close> where the
  division of HOL yields 0: the statements about the confidence formula are about
  non-empty frames.
\<close>

definition MIN_FACE_SIZE :: "nat \<times> nat" where
  "MIN_FACE_SIZE = (30, 30)"

definition SCALE_FACTOR :: real where
  "SCALE_FACTOR = 1.1"

definition MIN_NEIGHBORS :: nat where
  "MIN_NEIGHBORS = 4"

definition CONFIDENCE_THRESHOLD :: real where
  "CONFIDENCE_THRESHOLD = 0.7"

definition np_mean :: "real list \<Rightarrow> real" where
  "np_mean xs = sum_list xs / real (length xs)"

definition box_area :: "box \<Rightarrow> real" where
  "box_area = (\<lambda>(x, y, w, h). real_of_int (sint (w * h)))"

definition face_confidence :: "'px image \<Rightarrow> box list \<Rightarrow> real" where
  "face_confidence img faces =
     (if length faces > 0
      then
        let avg_face_area = np_mean (map box_area faces);
            image_area = real (height img * width img)
        in min 0.9 (0.5 + (avg_face_area / image_area) * 2)
      else 0.0)"

text \<open>Lines 88 to 97: the boxes the cascade classifier returns for the frame.\<close>

definition cascade_faces :: "('px, 'gray, 'contour) cv2 \<Rightarrow> 'px image \<Rightarrow> exn + box list" where
  "cascade_faces cv img =
     (case cvtColor cv img of
        Inl e \<Rightarrow> Inl e
      | Inr gray \<Rightarrow> detectMultiScale cv gray SCALE_FACTOR MIN_NEIGHBORS MIN_FACE_SIZE)"

text \<open>
  \<^verbatim>\<open>detect_faces\<close> returns \<^verbatim>\<open>(face_count, confidence, faces)\<close>; its handler
  \<^verbatim>\<open>except Exception\<close> returns \<^verbatim>\<open>(0, 0.0, [])\<close>.
\<close>

definition detect_faces :: "('px, 'gray, 'contour) cv2 \<Rightarrow> 'px image \<Rightarrow> nat \<times> real \<times> box list" where
  "detect_faces cv img =
     (case cascade_faces cv img of
        Inl e \<Rightarrow> (0, 0.0, [])
      | Inr faces \<Rightarrow> (length faces, face_confidence img faces, faces))"

section \<open>Detector, motion variant: \<^verbatim>\<open>MotionDetector.detect_motion\<close>\<close>

definition MOTION_THRESHOLD :: real where
  "MOTION_THRESHOLD = 5000"

definition BLUR_SIZE :: nat where
  "BLUR_SIZE = 21"

definition DILATE_ITERATIONS :: nat where
  "DILATE_ITERATIONS = 2"

definition FRAME_DELTA_THRESHOLD :: nat where
  "FRAME_DELTA_THRESHOLD = 25"

definition MIN_CONTOUR_AREA :: real where
  "MIN_CONTOUR_AREA = 500"

text \<open>The detector object: its two attributes.\<close>

record 'gray motion_detector =
  previous_frame :: "'gray option"
  motion_detected_time :: "real option"

text \<open>Lines 84 and 85: the blurred grayscale of the current frame.\<close>

definition blurred_gray :: "('px, 'gray, 'contour) cv2 \<Rightarrow> 'px image \<Rightarrow> exn + 'gray" where
  "blurred_gray cv current_frame =
     (case cvtColor cv current_frame of
        Inl e \<Rightarrow> Inl e
      | Inr gray \<Rightarrow> GaussianBlur cv gray (BLUR_SIZE, BLUR_SIZE))"

text \<open>The loop over the contours (lines 105 to 112).\<close>

fun significant_contours ::
  "('contour \<Rightarrow> exn + real) \<Rightarrow> 'contour list \<Rightarrow> real \<Rightarrow> 'contour list \<Rightarrow> exn + real \<times> 'contour list" where
  "significant_contours area [] motion_level kept = Inr (motion_level, kept)"
| "significant_contours area (contour # contours) motion_level kept =
     (case area contour of
        Inl e \<Rightarrow> Inl e
      | Inr a \<Rightarrow>
          if a > MIN_CONTOUR_AREA
          then significant_contours area contours (motion_level + a) (kept @ [contour])
          else significant_contours area contours motion_level kept)"

text \<open>The comparison with the stored frame (lines 93 to 112).\<close>

definition compare_frames ::
  "('px, 'gray, 'contour) cv2 \<Rightarrow> 'gray \<Rightarrow> 'gray \<Rightarrow> exn + real \<times> 'contour list" where
  "compare_frames cv previous gray =
     (case absdiff cv previous gray of
        Inl e \<Rightarrow> Inl e
      | Inr frame_delta \<Rightarrow>
     (case threshold cv frame_delta FRAME_DELTA_THRESHOLD 255 of
        Inl e \<Rightarrow> Inl e
      | Inr thresh \<Rightarrow>
     (case dilate cv thresh DILATE_ITERATIONS of
        Inl e \<Rightarrow> Inl e
      | Inr thresh \<Rightarrow>
     (case findContours cv thresh of
        Inl e \<Rightarrow> Inl e
      | Inr contours \<Rightarrow> significant_contours (contourArea cv) contours 0 []))))"

text \<open>
  \<^verbatim>\<open>detect_motion\<close> returns \<^verbatim>\<open>(motion_detected, motion_level, contours)\<close> and mutates
  \<^verbatim>\<open>self.previous_frame\<close>: the detector is passed in and returned. Its handler
  \<^verbatim>\<open>except Exception\<close> returns \<^verbatim>\<open>(False, 0, [])\<close> and assigns nothing.
\<close>

definition detect_motion ::
  "('px, 'gray, 'contour) cv2 \<Rightarrow> 'gray motion_detector \<Rightarrow> 'px image \<Rightarrow>
     (bool \<times> real \<times> 'contour list) \<times> 'gray motion_detector" where
  "detect_motion cv self current_frame =
     (case blurred_gray cv current_frame of
        Inl e \<Rightarrow> ((False, 0, []), self)
      | Inr gray \<Rightarrow>
          (case previous_frame self of
             None \<Rightarrow> ((False, 0, []), self\<lparr>previous_frame := Some gray\<rparr>)
           | Some previous \<Rightarrow>
               (case compare_frames cv previous gray of
                  Inl e \<Rightarrow> ((False, 0, []), self)
                | Inr (motion_level, kept) \<Rightarrow>
                    ((motion_level > MOTION_THRESHOLD, motion_level, kept),
                     self\<lparr>previous_frame := Some gray\<rparr>))))"

section \<open>Reporter: \<^verbatim>\<open>log_detection\<close>\<close>

text \<open>
  The environment of one call is what \<^verbatim>\<open>requests.post\<close> does: it raises, or it returns a
  response with a status code and a body. \<^verbatim>\<open>response.json()\<close> raises when the body is
  not JSON; a JSON value that is not an object has no \<^verbatim>\<open>get\<close>. The function returns
  its boolean together with the line it printed.
\<close>

datatype json = JsonObject "(string \<times> string) list" | JsonOther

record response =
  status_code :: nat
  json_body :: "json option"
  body_text :: string

definition response_json :: "response \<Rightarrow> exn + json" where
  "response_json r = (case json_body r of None \<Rightarrow> Inl JSONDecodeError | Some j \<Rightarrow> Inr j)"

definition json_get :: "json \<Rightarrow> string \<Rightarrow> string \<Rightarrow> exn + string" where
  "json_get j k dflt =
     (case j of
        JsonObject kvs \<Rightarrow> Inr (case map_of kvs k of None \<Rightarrow> dflt | Some v \<Rightarrow> v)
      | JsonOther \<Rightarrow> Inl AttributeError)"

datatype report_log =
    Logged string
  | FailedHTTP nat string
  | TimeoutLogging
  | ConnectionErrorLogging
  | ErrorLogging exn

text \<open>The body of the \<^verbatim>\<open>try\<close> from the POST on (lines 147 to 165 of the face script).\<close>

definition post_and_check :: "exn + response \<Rightarrow> exn + bool \<times> report_log" where
  "post_and_check requests_post =
     (case requests_post of
        Inl e \<Rightarrow> Inl e
      | Inr response \<Rightarrow>
          if status_code response = 200
          then
            (case response_json response of
               Inl e \<Rightarrow> Inl e
             | Inr result \<Rightarrow>
                 (case json_get result ''id'' ''unknown'' of
                    Inl e \<Rightarrow> Inl e
                  | Inr i \<Rightarrow> Inr (True, Logged i)))
          else
            Inr (False, FailedHTTP (status_code response)
              (case (case response_json response of
                       Inl e \<Rightarrow> Inl e
                     | Inr error_data \<Rightarrow> json_get error_data ''error'' ''Unknown error'') of
                 Inl e \<Rightarrow> body_text response
               | Inr msg \<Rightarrow> msg)))"

definition log_detection :: "exn + response \<Rightarrow> bool \<times> report_log" where
  "log_detection requests_post =
     (case post_and_check requests_post of
        Inr r \<Rightarrow> r
      | Inl e \<Rightarrow>
          if e = RequestsTimeout then (False, TimeoutLogging)
          else if e = RequestsConnectionError then (False, ConnectionErrorLogging)
          else (False, ErrorLogging e))"

text \<open>
  \<^verbatim>\<open>log_detection\<close> of the minimal server-side script has no \<^verbatim>\<open>return\<close>: all it gives
  is the line it prints.
\<close>

datatype server_log = LoggedFaces | FailedToLog nat | ErrorLoggingDetection exn

definition server_log_detection :: "exn + response \<Rightarrow> server_log" where
  "server_log_detection requests_post =
     (case requests_post of
        Inl e \<Rightarrow> ErrorLoggingDetection e
      | Inr response \<Rightarrow>
          if status_code response = 200 then LoggedFaces
          else FailedToLog (status_code response))"

section \<open>DetectionLoop: \<^verbatim>\<open>run_detection_loop\<close>\<close>

text \<open>
  One iteration of \<^verbatim>\<open>while True\<close> is driven by what the environment does in it:
  \<^verbatim>\<open>get_frame_from_stream\<close> returns an image and \<^verbatim>\<open>time.time()\<close> then reads \<open>now\<close>; or it
  returns \<^verbatim>\<open>None\<close>; or a \<^verbatim>\<open>KeyboardInterrupt\<close> or another exception is raised in the body
  of the \<^verbatim>\<open>try\<close> before the frame is tested. The loop's variables are a record, with
  \<open>stopped\<close> set by \<^verbatim>\<open>break\<close>; the calls of \<^verbatim>\<open>log_detection\<close> are recorded with their
  arguments. Printing and sleeping change none of these and are left out.
\<close>

datatype 'px event =
    Frame "'px image" real
  | NotAvailable
  | KeyboardInterrupt
  | UnexpectedException

text \<open>
  What one call of \<^verbatim>\<open>get_frame_from_stream\<close> on a connection, followed by
  \<^verbatim>\<open>time.time()\<close>, contributes to an iteration.
\<close>

definition acquire ::
  "(byte list \<Rightarrow> exn + 'px image option) \<Rightarrow> connection \<Rightarrow> real \<Rightarrow> 'px event" where
  "acquire imdecode urlopen now =
     (case fst (get_frame_from_stream imdecode urlopen) of
        None \<Rightarrow> NotAvailable
      | Some img \<Rightarrow> Frame img now)"

record loop_state =
  consecutive_errors :: nat
  stopped :: bool

definition max_consecutive_errors :: nat where
  "max_consecutive_errors = 10"

text \<open>
  Both places that count an error (frame \<^verbatim>\<open>None\<close>, and \<^verbatim>\<open>except Exception\<close>) increment
  and then test the counter against the ceiling.
\<close>

definition count_error :: "'a loop_state_scheme \<Rightarrow> 'a loop_state_scheme" where
  "count_error st =
     (let st = st\<lparr>consecutive_errors := consecutive_errors st + 1\<rparr>
      in if consecutive_errors st \<ge> max_consecutive_errors then st\<lparr>stopped := True\<rparr> else st)"

text \<open>\<^verbatim>\<open>int(x)\<close> of a float truncates towards zero.\<close>

definition py_int :: "real \<Rightarrow> int" where
  "py_int x = (if x \<ge> 0 then \<lfloor>x\<rfloor> else \<lceil>x\<rceil>)"

subsection \<open>Face loop\<close>

record face_loop = loop_state +
  face_reports :: "(nat \<times> real) list"

definition face_iteration ::
  "('px, 'gray, 'contour) cv2 \<Rightarrow> face_loop \<Rightarrow> 'px event \<Rightarrow> face_loop" where
  "face_iteration cv st ev =
     (case ev of
        Frame img now \<Rightarrow>
          (let st = st\<lparr>consecutive_errors := 0\<rparr>;
               (face_count, confidence, faces) = detect_faces cv img;
               current_time = now;
               should_log = (face_count > 0 \<or> py_int current_time mod 30 = 0)
           in if should_log \<and> confidence \<ge> CONFIDENCE_THRESHOLD
              then st\<lparr>face_reports := face_reports st @ [(face_count, confidence)]\<rparr>
              else st)
      | NotAvailable \<Rightarrow> count_error st
      | KeyboardInterrupt \<Rightarrow> st\<lparr>stopped := True\<rparr>
      | UnexpectedException \<Rightarrow> count_error st)"

fun face_loop_from :: "('px, 'gray, 'contour) cv2 \<Rightarrow> face_loop \<Rightarrow> 'px event list \<Rightarrow> face_loop" where
  "face_loop_from cv st [] = st"
| "face_loop_from cv st (ev # evs) =
     (let st = face_iteration cv st ev
      in if stopped st then st else face_loop_from cv st evs)"

definition face_start :: face_loop where
  "face_start = \<lparr>consecutive_errors = 0, stopped = False, face_reports = []\<rparr>"

definition run_face_detection_loop :: "('px, 'gray, 'contour) cv2 \<Rightarrow> 'px event list \<Rightarrow> face_loop" where
  "run_face_detection_loop cv evs = face_loop_from cv face_start evs"

subsection \<open>Motion loop\<close>

definition motion_cooldown :: real where
  "motion_cooldown = 5"

record 'gray motion_loop = loop_state +
  last_motion_log_time :: real
  detector :: "'gray motion_detector"
  motion_reports :: "(real \<times> nat) list"

definition motion_iteration ::
  "('px, 'gray, 'contour) cv2 \<Rightarrow> 'gray motion_loop \<Rightarrow> 'px event \<Rightarrow> 'gray motion_loop" where
  "motion_iteration cv st ev =
     (case ev of
        Frame img now \<Rightarrow>
          (let st = st\<lparr>consecutive_errors := 0\<rparr>;
               ((motion_detected, motion_level, contours), self) = detect_motion cv (detector st) img;
               st = st\<lparr>detector := self\<rparr>;
               current_time = now
           in if motion_detected
              then
                if current_time - last_motion_log_time st \<ge> motion_cooldown
                then st\<lparr>motion_reports := motion_reports st @ [(motion_level, length contours)],
                        last_motion_log_time := current_time,
                        detector := (detector st)\<lparr>motion_detected_time := Some current_time\<rparr>\<rparr>
                else st
              else st)
      | NotAvailable \<Rightarrow> count_error st
      | KeyboardInterrupt \<Rightarrow> st\<lparr>stopped := True\<rparr>
      | UnexpectedException \<Rightarrow> count_error st)"

fun motion_loop_from ::
  "('px, 'gray, 'contour) cv2 \<Rightarrow> 'gray motion_loop \<Rightarrow> 'px event list \<Rightarrow> 'gray motion_loop" where
  "motion_loop_from cv st [] = st"
| "motion_loop_from cv st (ev # evs) =
     (let st = motion_iteration cv st ev
      in if stopped st then st else motion_loop_from cv st evs)"

definition motion_start :: "'gray motion_loop" where
  "motion_start =
     \<lparr>consecutive_errors = 0, stopped = False, last_motion_log_time = 0,
      detector = \<lparr>previous_frame = None, motion_detected_time = None\<rparr>, motion_reports = []\<rparr>"

definition run_motion_detection_loop ::
  "('px, 'gray, 'contour) cv2 \<Rightarrow> 'px event list \<Rightarrow> 'gray motion_loop" where
  "run_motion_detection_loop cv evs = motion_loop_from cv motion_start evs"

section \<open>A small instance of the OpenCV operations\<close>

text \<open>
  The theorems below hold for every implementation of the OpenCV operations. To apply
  them to concrete frames, this instance describes a picture by the faces and the bright
  blobs in it: the classifier returns the faces, the blur removes the blobs smaller than
  the kernel, the difference of two pictures holds the blobs that are new, and a contour
  is a blob given by its area. As in OpenCV, converting an empty picture and subtracting
  pictures of different sizes raise an error.
\<close>

type_synonym scene = "box list \<times> real list"

definition scene_cv2 :: "(scene, (nat \<times> nat) \<times> scene, real) cv2" where
  "scene_cv2 =
     \<lparr>cvtColor = (\<lambda>img. if height img = 0 \<or> width img = 0 then Inl CvError
                          else Inr ((height img, width img), pixels img)),
      detectMultiScale = (\<lambda>gray scaleFactor minNeighbors minSize. Inr (fst (snd gray))),
      GaussianBlur = (\<lambda>gray ksize.
                        Inr (fst gray, fst (snd gray),
                             filter (\<lambda>blob. real (fst ksize) \<le> blob) (snd (snd gray)))),
      absdiff = (\<lambda>a b. if fst a = fst b
                        then Inr (fst b, fst (snd b), filter (\<lambda>blob. blob \<notin> set (snd (snd a))) (snd (snd b)))
                        else Inl CvError),
      threshold = (\<lambda>gray thresh maxval. Inr gray),
      dilate = (\<lambda>gray iterations. Inr gray),
      findContours = (\<lambda>gray. Inr (snd (snd gray))),
      contourArea = (\<lambda>contour. Inr contour)\<rparr>"

definition vga :: "scene \<Rightarrow> scene image" where
  "vga sc = \<lparr>height = 480, width = 640, pixels = sc\<rparr>"

definition qvga :: "scene \<Rightarrow> scene image" where
  "qvga sc = \<lparr>height = 240, width = 320, pixels = sc\<rparr>"


text \<open>
  A decoder that accepts every slice, and the chunks of a stream that closes in the middle
  of a frame.
\<close>

definition decode_all :: "byte list \<Rightarrow> exn + byte list option" where
  "decode_all jpeg_data = Inr (Some jpeg_data)"

definition half_frame :: "byte list list" where
  "half_frame = [[0x0D, 0x0A, 0xFF, 0xD8, 0x01], [0x02, 0xFF], [0x00, 0x03]]"

text \<open>A buffer that begins with the tail of a frame: an end marker, then a whole frame.\<close>

definition joined_mid_frame :: "byte list" where
  "joined_mid_frame = [0xFF, 0xD9, 0xFF, 0xD8, 0x00, 0xFF, 0xD9]"

text \<open>
  A run of the motion loop on this instance: a first frame with nothing in it, then
  three frames 1, 3 and 6 seconds later, each with a new blob of more than 5000 pixels.
\<close>

definition watching :: "((nat \<times> nat) \<times> scene) motion_loop" where
  "watching = run_motion_detection_loop scene_cv2 [Frame (vga ([], [])) 1700000000]"

definition motion_seen :: "((nat \<times> nat) \<times> scene) motion_loop" where
  "motion_seen = motion_iteration scene_cv2 watching (Frame (vga ([], [6000])) 1700000001)"

definition motion_again :: "((nat \<times> nat) \<times> scene) motion_loop" where
  "motion_again = motion_iteration scene_cv2 motion_seen (Frame (vga ([], [7000])) 1700000003)"

definition motion_later :: "((nat \<times> nat) \<times> scene) motion_loop" where
  "motion_later =
     motion_iteration scene_cv2 motion_again (Frame (vga ([], [8000, 200, 600])) 1700000006)"

section \<open>Properties of the byte search\<close>

lemma find_from_lower: "find_from sub xs i \<noteq> -1 \<Longrightarrow> int i \<le> find_from sub xs i"
  by (induction xs arbitrary: i) (force split: if_splits)+

lemma find_from_none: "find_from sub xs i = -1 \<longleftrightarrow> (\<forall>k\<le>length xs. \<not> marker_at sub xs k)"
proof (induction xs arbitrary: i)
  case Nil
  then show ?case by (auto simp: marker_at_def)
next
  case (Cons x xs)
  show ?case
  proof (cases "take (length sub) (x # xs) = sub")
    case True
    then have "marker_at sub (x # xs) 0" by (simp add: marker_at_def)
    with True show ?thesis by auto
  next
    case False
    have "(\<forall>k\<le>length (x # xs). \<not> marker_at sub (x # xs) k) \<longleftrightarrow> (\<forall>k\<le>length xs. \<not> marker_at sub xs k)"
    proof
      assume a: "\<forall>k\<le>length (x # xs). \<not> marker_at sub (x # xs) k"
      show "\<forall>k\<le>length xs. \<not> marker_at sub xs k"
      proof (intro allI impI)
        fix k assume "k \<le> length xs"
        then have "\<not> marker_at sub (x # xs) (Suc k)" using a by simp
        then show "\<not> marker_at sub xs k" by (simp add: marker_at_def)
      qed
    next
      assume a: "\<forall>k\<le>length xs. \<not> marker_at sub xs k"
      show "\<forall>k\<le>length (x # xs). \<not> marker_at sub (x # xs) k"
      proof (intro allI impI)
        fix k assume k: "k \<le> length (x # xs)"
        show "\<not> marker_at sub (x # xs) k"
        proof (cases k)
          case 0
          then show ?thesis using False by (simp add: marker_at_def)
        next
          case (Suc j)
          then show ?thesis using a k by (simp add: marker_at_def)
        qed
      qed
    qed
    with False Cons[of "Suc i"] show ?thesis by simp
  qed
qed

lemma find_from_first:
  "find_from sub xs i = int (i + k) \<Longrightarrow> marker_at sub xs k \<and> (\<forall>j<k. \<not> marker_at sub xs j)"
proof (induction xs arbitrary: i k)
  case Nil
  then show ?case by (auto simp: marker_at_def split: if_splits)
next
  case (Cons x xs)
  show ?case
  proof (cases "take (length sub) (x # xs) = sub")
    case True
    with Cons.prems have "k = 0" by simp
    with True show ?thesis by (simp add: marker_at_def)
  next
    case False
    with Cons.prems have f: "find_from sub xs (Suc i) = int (i + k)" by simp
    then have "find_from sub xs (Suc i) \<noteq> -1" by linarith
    from find_from_lower[OF this] f have "Suc i \<le> i + k" by linarith
    then obtain k' where k': "k = Suc k'" by (cases k) auto
    with f have "find_from sub xs (Suc i) = int (Suc i + k')" by simp
    from Cons.IH[OF this] have ih: "marker_at sub xs k'" "\<forall>j<k'. \<not> marker_at sub xs j" by auto
    have "\<forall>j<k. \<not> marker_at sub (x # xs) j"
    proof (intro allI impI)
      fix j assume "j < k"
      show "\<not> marker_at sub (x # xs) j"
      proof (cases j)
        case 0
        then show ?thesis using False by (simp add: marker_at_def)
      next
        case (Suc j')
        then show ?thesis using ih(2) \<open>j < k\<close> k' by (simp add: marker_at_def)
      qed
    qed
    moreover have "marker_at sub (x # xs) k" using ih(1) k' by (simp add: marker_at_def)
    ultimately show ?thesis by simp
  qed
qed

lemma find_from_found:
  "find_from sub xs i \<noteq> -1 \<Longrightarrow> \<exists>k\<le>length xs. find_from sub xs i = int (i + k)"
proof (induction xs arbitrary: i)
  case Nil
  then show ?case by (auto split: if_splits)
next
  case (Cons x xs)
  show ?case
  proof (cases "take (length sub) (x # xs) = sub")
    case True
    then show ?thesis by auto
  next
    case False
    with Cons.prems have "find_from sub xs (Suc i) \<noteq> -1" by simp
    from Cons.IH[OF this] obtain k
      where "k \<le> length xs" "find_from sub xs (Suc i) = int (Suc i + k)" by auto
    then have "Suc k \<le> length (x # xs) \<and> find_from sub (x # xs) i = int (i + Suc k)"
      using False by simp
    then show ?thesis by blast
  qed
qed

section \<open>The face detector's confidence\<close>

lemma detect_faces_no_boxes: "cascade_faces cv img = Inr [] \<Longrightarrow> detect_faces cv img = (0, 0, [])"
  by (simp add: detect_faces_def face_confidence_def)

lemma detect_faces_raises: "cascade_faces cv img = Inl e \<Longrightarrow> detect_faces cv img = (0, 0, [])"
  by (simp add: detect_faces_def)

lemma box_area_exact:
  fixes w h :: int32
  assumes "- (2 ^ 31) \<le> sint w * sint h" "sint w * sint h < 2 ^ 31"
  shows "box_area (x, y, w, h) = real_of_int (sint w * sint h)"
proof -
  have "sint (w * h) = signed_take_bit 31 (sint w * sint h)"
    by (simp add: sint_word_mult)
  also have "\<dots> = sint w * sint h"
    using assms by (intro signed_take_bit_int_eq_self) simp_all
  finally have "real_of_int (sint (w * h)) = real_of_int (sint w * sint h)" by (simp only:)
  then show ?thesis by (simp only: box_area_def prod.case)
qed

lemma map_box_area_exact:
  assumes "\<forall>(x, y, w, h)\<in>set faces. - (2 ^ 31) \<le> sint w * sint h \<and> sint w * sint h < 2 ^ 31"
  shows "map box_area faces = map (\<lambda>(x, y, w, h). real_of_int (sint w * sint h)) faces"
  using assms by (induction faces) (auto simp: box_area_exact)

lemma cascade_faces_calls:
  "cvtColor cv img = Inr gray \<Longrightarrow> detectMultiScale cv gray 1.1 4 (30, 30) = r
     \<Longrightarrow> cascade_faces cv img = r"
  by (simp add: cascade_faces_def SCALE_FACTOR_def MIN_NEIGHBORS_def MIN_FACE_SIZE_def)

lemma detect_faces_boxes:
  assumes "cascade_faces cv img = Inr faces" "faces \<noteq> []"
    and "\<forall>(x, y, w, h)\<in>set faces. - (2 ^ 31) \<le> sint w * sint h \<and> sint w * sint h < 2 ^ 31"
  shows "detect_faces cv img =
     (length faces,
      min 0.9 (0.5 + 2 * (sum_list (map (\<lambda>(x, y, w, h). real_of_int (sint w * sint h)) faces)
                          / real (length faces))
                      / real (height img * width img)),
      faces)"
proof -
  note m = map_box_area_exact[OF assms(3)]
  from assms(1,2) show ?thesis
    by (simp add: detect_faces_def face_confidence_def np_mean_def Let_def m)
qed

lemma detect_faces_full_frame:
  fixes w h :: int32
  assumes "cascade_faces cv img = Inr [(x, y, w, h)]"
    and "sint w = int (width img)" "sint h = int (height img)"
    and "0 < height img * width img" "height img * width img < 2 ^ 31"
  shows "fst (snd (detect_faces cv img)) = 0.9"
proof -
  have prod: "sint w * sint h = int (height img * width img)"
    using assms(2,3) by (simp add: mult.commute)
  have "- (2 ^ 31) \<le> (0::int)" by simp
  also have "(0::int) \<le> int (height img * width img)" by simp
  finally have lo: "- (2 ^ 31) \<le> sint w * sint h" unfolding prod .
  have "int (height img * width img) < int (2 ^ 31)" using assms(5) by (rule iffD2[OF of_nat_less_iff])
  then have hi: "sint w * sint h < 2 ^ 31" unfolding prod by simp
  have area: "box_area (x, y, w, h) = real (height img * width img)"
    using box_area_exact[OF lo hi, of x y] prod by simp
  have pos: "real (height img * width img) \<noteq> 0" using assms(4) by simp
  have one: "box_area (x, y, w, h) / real (height img * width img) = 1"
    unfolding area using pos by (rule divide_self)
  have "face_confidence img [(x, y, w, h)]
      = min 0.9 (0.5 + (box_area (x, y, w, h) / real (height img * width img)) * 2)"
    by (simp add: face_confidence_def np_mean_def Let_def)
  also have "\<dots> = min 0.9 (0.5 + 1 * 2)" by (simp only: one)
  also have "\<dots> = 0.9" by simp
  finally show ?thesis using assms(1) by (simp add: detect_faces_def)
qed

text \<open>
  Claim C2. When \<^verbatim>\<open>detectMultiScale\<close>, called on the grayscale of the frame with scale factor
  1.1, 4 neighbours and minimum size (30, 30), returns no box, the count and the
  confidence \<^verbatim>\<open>detect_faces\<close> returns are 0. When it returns one or more boxes, each with an
  area \<open>w * h\<close> that fits a signed 32-bit integer (as the area of every box inside a decoded
  frame does), on a non-empty frame, the confidence is the minimum of 0.9 and
  0.5 + 2 * mean (w * h) / (frame height * frame width). A single box of the frame's own
  width and height, on a non-empty frame of fewer than \<open>2^31\<close> pixels, gives 0.9.
\<close>

theorem C2_face_confidence:
  "(\<forall>gray. cvtColor cv img = Inr gray \<and> detectMultiScale cv gray 1.1 4 (30, 30) = Inr [] \<longrightarrow>
        fst (detect_faces cv img) = 0 \<and> fst (snd (detect_faces cv img)) = 0)
   \<and> (\<forall>gray faces. cvtColor cv img = Inr gray
          \<and> detectMultiScale cv gray 1.1 4 (30, 30) = Inr faces \<and> faces \<noteq> []
          \<and> (\<forall>(x, y, w, h)\<in>set faces. - (2 ^ 31) \<le> sint w * sint h \<and> sint w * sint h < 2 ^ 31)
          \<and> 0 < height img * width img \<longrightarrow>
        fst (detect_faces cv img) = length faces
        \<and> fst (snd (detect_faces cv img)) =
          min 0.9 (0.5 + 2 * (sum_list (map (\<lambda>(x, y, w, h). real_of_int (sint w * sint h)) faces)
                              / real (length faces))
                          / real (height img * width img)))
   \<and> (\<forall>gray x y w h. cvtColor cv img = Inr gray
          \<and> detectMultiScale cv gray 1.1 4 (30, 30) = Inr [(x, y, w, h)]
          \<and> sint w = int (width img) \<and> sint h = int (height img)
          \<and> 0 < height img * width img \<and> height img * width img < 2 ^ 31 \<longrightarrow>
        fst (snd (detect_faces cv img)) = 0.9)"
proof (intro conjI allI impI)
  fix gray
  assume "cvtColor cv img = Inr gray \<and> detectMultiScale cv gray 1.1 4 (30, 30) = Inr []"
  then have "cascade_faces cv img = Inr []" by (auto intro: cascade_faces_calls)
  from detect_faces_no_boxes[OF this]
  show "fst (detect_faces cv img) = 0" and "fst (snd (detect_faces cv img)) = 0" by simp_all
next
  fix gray faces
  assume a: "cvtColor cv img = Inr gray
          \<and> detectMultiScale cv gray 1.1 4 (30, 30) = Inr faces \<and> faces \<noteq> []
          \<and> (\<forall>(x, y, w, h)\<in>set faces. - (2 ^ 31) \<le> sint w * sint h \<and> sint w * sint h < 2 ^ 31)
          \<and> 0 < height img * width img"
  then have c: "cascade_faces cv img = Inr faces" by (auto intro: cascade_faces_calls)
  from a have ne: "faces \<noteq> []"
    and fit: "\<forall>(x, y, w, h)\<in>set faces. - (2 ^ 31) \<le> sint w * sint h \<and> sint w * sint h < 2 ^ 31"
    by blast+
  from detect_faces_boxes[OF c ne fit]
  show "fst (detect_faces cv img) = length faces"
    and "fst (snd (detect_faces cv img)) =
          min 0.9 (0.5 + 2 * (sum_list (map (\<lambda>(x, y, w, h). real_of_int (sint w * sint h)) faces)
                              / real (length faces))
                          / real (height img * width img))"
    by simp_all
next
  fix gray x y and w h :: int32
  assume a: "cvtColor cv img = Inr gray
          \<and> detectMultiScale cv gray 1.1 4 (30, 30) = Inr [(x, y, w, h)]
          \<and> sint w = int (width img) \<and> sint h = int (height img)
          \<and> 0 < height img * width img \<and> height img * width img < 2 ^ 31"
  then have c: "cascade_faces cv img = Inr [(x, y, w, h)]" by (auto intro: cascade_faces_calls)
  from a detect_faces_full_frame[OF c] show "fst (snd (detect_faces cv img)) = 0.9" by blast
qed


text \<open>
  Beyond that range the product wraps, in the code and here: a box of side 46341 on a
  frame of 480 by 640 gives a negative confidence.
\<close>

lemma face_confidence_wraps:
  "detect_faces scene_cv2 (vga ([(0, 0, 46341, 46341)], []))
     = (1, - (429480443 / 30720), [(0, 0, 46341, 46341)])"
  by (simp add: detect_faces_def cascade_faces_def scene_cv2_def vga_def face_confidence_def
      np_mean_def box_area_def)

theorem C2_face_confidence_witness:
  "cvtColor scene_cv2 (vga ([], [])) = Inr ((480, 640), [], [])
   \<and> detectMultiScale scene_cv2 ((480, 640), [], []) 1.1 4 (30, 30) = Inr []
   \<and> fst (snd (detect_faces scene_cv2 (vga ([], [])))) = 0
   \<and> cvtColor scene_cv2 (vga ([(0, 0, 64, 48), (1, 1, 100, 100)], []))
       = Inr ((480, 640), [(0, 0, 64, 48), (1, 1, 100, 100)], [])
   \<and> detectMultiScale scene_cv2 ((480, 640), [(0, 0, 64, 48), (1, 1, 100, 100)], []) 1.1 4 (30, 30)
       = Inr [(0, 0, 64, 48), (1, 1, 100, 100)]
   \<and> (\<forall>(x, y, w, h)\<in>set [(0, 0, 64, 48), (1, 1, 100, 100) :: box].
         - (2 ^ 31) \<le> sint w * sint h \<and> sint w * sint h < 2 ^ 31) = True
   \<and> fst (snd (detect_faces scene_cv2 (vga ([(0, 0, 64, 48), (1, 1, 100, 100)], []))))
       = 10417 / 19200
   \<and> cvtColor scene_cv2 (vga ([(0, 0, 640, 480)], [])) = Inr ((480, 640), [(0, 0, 640, 480)], [])
   \<and> detectMultiScale scene_cv2 ((480, 640), [(0, 0, 640, 480)], []) 1.1 4 (30, 30)
       = Inr [(0, 0, 640, 480)]
   \<and> sint (640 :: int32) = int (width (vga ([(0, 0, 640, 480)], [])))
   \<and> sint (480 :: int32) = int (height (vga ([(0, 0, 640, 480)], [])))
   \<and> fst (snd (detect_faces scene_cv2 (vga ([(0, 0, 640, 480)], [])))) = 0.9"
proof -
  let ?none = "vga ([], [])"
  let ?two = "vga ([(0, 0, 64, 48), (1, 1, 100, 100)], [])"
  let ?full = "vga ([(0, 0, 640, 480)], [])"
  have g0: "cvtColor scene_cv2 ?none = Inr ((480, 640), [], [])"
    and g2: "cvtColor scene_cv2 ?two = Inr ((480, 640), [(0, 0, 64, 48), (1, 1, 100, 100)], [])"
    and g1: "cvtColor scene_cv2 ?full = Inr ((480, 640), [(0, 0, 640, 480)], [])"
    by (simp_all add: scene_cv2_def vga_def)
  have m0: "detectMultiScale scene_cv2 ((480, 640), [], []) 1.1 4 (30, 30) = Inr []"
    and m2: "detectMultiScale scene_cv2 ((480, 640), [(0, 0, 64, 48), (1, 1, 100, 100)], [])
        1.1 4 (30, 30) = Inr [(0, 0, 64, 48), (1, 1, 100, 100)]"
    and m1: "detectMultiScale scene_cv2 ((480, 640), [(0, 0, 640, 480)], []) 1.1 4 (30, 30)
        = Inr [(0, 0, 640, 480)]"
    by (simp_all add: scene_cv2_def)
  have fit: "\<forall>(x, y, w, h)\<in>set [(0, 0, 64, 48), (1, 1, 100, 100) :: box].
         - (2 ^ 31) \<le> sint w * sint h \<and> sint w * sint h < 2 ^ 31"
    by simp
  have ne: "[(0, 0, 64, 48), (1, 1, 100, 100) :: box] \<noteq> []" by simp
  have area: "0 < height ?two * width ?two" "0 < height ?full * width ?full"
    "height ?full * width ?full < 2 ^ 31"
    by (simp_all add: vga_def)
  have sw: "sint (640 :: int32) = int (width ?full)" and sh: "sint (480 :: int32) = int (height ?full)"
    by (simp_all add: vga_def)
  from C2_face_confidence[of scene_cv2 ?none] g0 m0
  have a: "fst (snd (detect_faces scene_cv2 ?none)) = 0" by blast
  from C2_face_confidence[of scene_cv2 ?two] g2 m2 ne fit area(1)
  have b: "fst (snd (detect_faces scene_cv2 ?two)) =
      min 0.9 (0.5 + 2 * (sum_list (map (\<lambda>(x, y, w, h). real_of_int (sint w * sint h))
                                         [(0, 0, 64, 48), (1, 1, 100, 100) :: box])
                          / real (length [(0, 0, 64, 48), (1, 1, 100, 100) :: box]))
               / real (height ?two * width ?two))"
    by blast
  from C2_face_confidence[of scene_cv2 ?full] g1 m1 sw sh area(2,3)
  have c: "fst (snd (detect_faces scene_cv2 ?full)) = 0.9" by blast
  have b': "fst (snd (detect_faces scene_cv2 ?two)) = 10417 / 19200"
    unfolding b by (simp add: vga_def)
  from g0 m0 a g2 m2 fit b' g1 m1 sw sh c show ?thesis by simp
qed

section \<open>The consecutive-error counter of the detection loops\<close>

lemma count_error_counter: "consecutive_errors (count_error st) = consecutive_errors st + 1"
  by (simp add: count_error_def Let_def)

lemma count_error_stopped:
  "stopped (count_error st) = (stopped st \<or> max_consecutive_errors \<le> consecutive_errors st + 1)"
  by (simp add: count_error_def Let_def)

lemma count_error_face_reports: "face_reports (count_error st) = face_reports st"
  by (simp add: count_error_def Let_def)

lemma count_error_motion:
  "motion_reports (count_error st) = motion_reports st"
  "last_motion_log_time (count_error st) = last_motion_log_time st"
  by (simp_all add: count_error_def Let_def)

subsection \<open>Face loop\<close>

lemma face_frame_counter: "consecutive_errors (face_iteration cv st (Frame img now)) = 0"
  by (simp add: face_iteration_def Let_def split: prod.splits)

lemma face_iteration_ceiling:
  assumes "max_consecutive_errors \<le> consecutive_errors st \<longrightarrow> stopped st"
  shows "max_consecutive_errors \<le> consecutive_errors (face_iteration cv st ev)
         \<longrightarrow> stopped (face_iteration cv st ev)"
  using assms
  by (cases ev)
    (auto simp: face_iteration_def count_error_def Let_def max_consecutive_errors_def
      split: prod.splits)

lemma face_loop_ceiling:
  assumes "max_consecutive_errors \<le> consecutive_errors st \<longrightarrow> stopped st"
  shows "max_consecutive_errors \<le> consecutive_errors (face_loop_from cv st evs)
         \<longrightarrow> stopped (face_loop_from cv st evs)"
  using assms
proof (induction evs arbitrary: st)
  case Nil
  then show ?case by simp
next
  case (Cons ev evs)
  from face_iteration_ceiling[OF Cons.prems, of cv ev] Cons.IH[of "face_iteration cv st ev"]
  show ?case by (simp add: Let_def)
qed

lemma face_loop_not_available:
  assumes "\<not> stopped st" "consecutive_errors st < max_consecutive_errors"
    and "max_consecutive_errors \<le> consecutive_errors st + n"
  shows "face_loop_from cv st (replicate n NotAvailable @ evs)
         = st\<lparr>consecutive_errors := max_consecutive_errors, stopped := True\<rparr>"
  using assms
proof (induction n arbitrary: st)
  case 0
  then show ?case by simp
next
  case (Suc n)
  let ?st = "face_iteration cv st NotAvailable"
  show ?case
  proof (cases "Suc (consecutive_errors st) = max_consecutive_errors")
    case True
    then have "?st = st\<lparr>consecutive_errors := max_consecutive_errors, stopped := True\<rparr>"
      by (simp add: face_iteration_def count_error_def Let_def)
    then show ?thesis by (simp add: Let_def)
  next
    case False
    with Suc.prems have lt: "Suc (consecutive_errors st) < max_consecutive_errors" by simp
    then have st': "?st = st\<lparr>consecutive_errors := Suc (consecutive_errors st)\<rparr>"
      by (simp add: face_iteration_def count_error_def Let_def)
    have "face_loop_from cv ?st (replicate n NotAvailable @ evs)
          = ?st\<lparr>consecutive_errors := max_consecutive_errors, stopped := True\<rparr>"
      using Suc.prems lt by (intro Suc.IH) (simp_all add: st')
    then show ?thesis using Suc.prems(1) by (simp add: Let_def st')
  qed
qed

lemma face_loop_below_ceiling:
  assumes "\<not> stopped st" "consecutive_errors st + n < max_consecutive_errors"
  shows "face_loop_from cv st (replicate n NotAvailable)
         = st\<lparr>consecutive_errors := consecutive_errors st + n\<rparr>"
  using assms
proof (induction n arbitrary: st)
  case 0
  then show ?case by simp
next
  case (Suc n)
  let ?st = "face_iteration cv st NotAvailable"
  from Suc.prems have st': "?st = st\<lparr>consecutive_errors := Suc (consecutive_errors st)\<rparr>"
    by (simp add: face_iteration_def count_error_def Let_def)
  have "face_loop_from cv ?st (replicate n NotAvailable)
        = ?st\<lparr>consecutive_errors := consecutive_errors ?st + n\<rparr>"
    using Suc.prems by (intro Suc.IH) (simp_all add: st')
  then show ?case using Suc.prems(1) by (simp add: Let_def st')
qed

lemma face_ten_failures:
  assumes "10 \<le> n"
  shows "run_face_detection_loop cv (replicate n NotAvailable @ evs)
         = \<lparr>consecutive_errors = 10, stopped = True, face_reports = []\<rparr>"
proof -
  have "face_loop_from cv face_start (replicate n NotAvailable @ evs)
        = face_start\<lparr>consecutive_errors := max_consecutive_errors, stopped := True\<rparr>"
    using assms
    by (intro face_loop_not_available) (simp_all add: face_start_def max_consecutive_errors_def)
  then show ?thesis
    by (simp add: run_face_detection_loop_def face_start_def max_consecutive_errors_def)
qed

lemma face_few_failures:
  assumes "n < 10"
  shows "run_face_detection_loop cv (replicate n NotAvailable)
         = \<lparr>consecutive_errors = n, stopped = False, face_reports = []\<rparr>"
proof -
  have "face_loop_from cv face_start (replicate n NotAvailable)
        = face_start\<lparr>consecutive_errors := consecutive_errors face_start + n\<rparr>"
    using assms
    by (intro face_loop_below_ceiling) (simp_all add: face_start_def max_consecutive_errors_def)
  then show ?thesis by (simp add: run_face_detection_loop_def face_start_def)
qed

subsection \<open>Motion loop\<close>

lemma motion_frame_counter: "consecutive_errors (motion_iteration cv st (Frame img now)) = 0"
  by (simp add: motion_iteration_def Let_def split: prod.splits)

lemma motion_iteration_ceiling:
  assumes "max_consecutive_errors \<le> consecutive_errors st \<longrightarrow> stopped st"
  shows "max_consecutive_errors \<le> consecutive_errors (motion_iteration cv st ev)
         \<longrightarrow> stopped (motion_iteration cv st ev)"
  using assms
  by (cases ev)
    (auto simp: motion_iteration_def count_error_def Let_def max_consecutive_errors_def
      split: prod.splits)

lemma motion_loop_ceiling:
  assumes "max_consecutive_errors \<le> consecutive_errors st \<longrightarrow> stopped st"
  shows "max_consecutive_errors \<le> consecutive_errors (motion_loop_from cv st evs)
         \<longrightarrow> stopped (motion_loop_from cv st evs)"
  using assms
proof (induction evs arbitrary: st)
  case Nil
  then show ?case by simp
next
  case (Cons ev evs)
  from motion_iteration_ceiling[OF Cons.prems, of cv ev] Cons.IH[of "motion_iteration cv st ev"]
  show ?case by (simp add: Let_def)
qed

lemma motion_loop_not_available:
  assumes "\<not> stopped st" "consecutive_errors st < max_consecutive_errors"
    and "max_consecutive_errors \<le> consecutive_errors st + n"
  shows "motion_loop_from cv st (replicate n NotAvailable @ evs)
         = st\<lparr>consecutive_errors := max_consecutive_errors, stopped := True\<rparr>"
  using assms
proof (induction n arbitrary: st)
  case 0
  then show ?case by simp
next
  case (Suc n)
  let ?st = "motion_iteration cv st NotAvailable"
  show ?case
  proof (cases "Suc (consecutive_errors st) = max_consecutive_errors")
    case True
    then have "?st = st\<lparr>consecutive_errors := max_consecutive_errors, stopped := True\<rparr>"
      by (simp add: motion_iteration_def count_error_def Let_def)
    then show ?thesis by (simp add: Let_def)
  next
    case False
    with Suc.prems have lt: "Suc (consecutive_errors st) < max_consecutive_errors" by simp
    then have st': "?st = st\<lparr>consecutive_errors := Suc (consecutive_errors st)\<rparr>"
      by (simp add: motion_iteration_def count_error_def Let_def)
    have "motion_loop_from cv ?st (replicate n NotAvailable @ evs)
          = ?st\<lparr>consecutive_errors := max_consecutive_errors, stopped := True\<rparr>"
      using Suc.prems lt by (intro Suc.IH) (simp_all add: st')
    then show ?thesis using Suc.prems(1) by (simp add: Let_def st')
  qed
qed

lemma motion_loop_below_ceiling:
  assumes "\<not> stopped st" "consecutive_errors st + n < max_consecutive_errors"
  shows "motion_loop_from cv st (replicate n NotAvailable)
         = st\<lparr>consecutive_errors := consecutive_errors st + n\<rparr>"
  using assms
proof (induction n arbitrary: st)
  case 0
  then show ?case by simp
next
  case (Suc n)
  let ?st = "motion_iteration cv st NotAvailable"
  from Suc.prems have st': "?st = st\<lparr>consecutive_errors := Suc (consecutive_errors st)\<rparr>"
    by (simp add: motion_iteration_def count_error_def Let_def)
  have "motion_loop_from cv ?st (replicate n NotAvailable)
        = ?st\<lparr>consecutive_errors := consecutive_errors ?st + n\<rparr>"
    using Suc.prems by (intro Suc.IH) (simp_all add: st')
  then show ?case using Suc.prems(1) by (simp add: Let_def st')
qed

lemma motion_ten_failures:
  assumes "10 \<le> n"
  shows "run_motion_detection_loop cv (replicate n NotAvailable @ evs)
         = motion_start\<lparr>consecutive_errors := 10, stopped := True\<rparr>"
proof -
  have "motion_loop_from cv motion_start (replicate n NotAvailable @ evs)
        = motion_start\<lparr>consecutive_errors := max_consecutive_errors, stopped := True\<rparr>"
    using assms
    by (intro motion_loop_not_available)
      (simp_all add: motion_start_def max_consecutive_errors_def)
  then show ?thesis by (simp add: run_motion_detection_loop_def max_consecutive_errors_def)
qed

lemma motion_few_failures:
  fixes cv :: "('px, 'gray, 'contour) cv2"
  assumes "n < 10"
  shows "(run_motion_detection_loop cv (replicate n NotAvailable) :: 'gray motion_loop)
         = motion_start\<lparr>consecutive_errors := n\<rparr>"
proof -
  let ?start = "motion_start :: 'gray motion_loop"
  have "motion_loop_from cv ?start (replicate n NotAvailable)
        = ?start\<lparr>consecutive_errors := consecutive_errors ?start + n\<rparr>"
    using assms
    by (intro motion_loop_below_ceiling)
      (simp_all add: motion_start_def max_consecutive_errors_def)
  then show ?thesis by (simp add: run_motion_detection_loop_def motion_start_def)
qed

text \<open>
  Claim C3. In both detection loops a failed frame acquisition (and an unexpected
  exception) increments the consecutive-error counter and a successful acquisition resets
  it to zero; the loop stops exactly when the counter reaches the ceiling of 10, so a
  loop whose counter is 10 or more has stopped, fewer than 10 failures leave it
  running, and 10 or more failed acquisitions from the start stop it with no call of
  the reporter, whatever would have followed.
\<close>

theorem C3_consecutive_errors:
  fixes st :: face_loop and mst :: "'gray motion_loop"
    and cv :: "('px, 'gray, 'contour) cv2"
  shows
  "max_consecutive_errors = 10
   \<and> consecutive_errors (face_iteration cv st NotAvailable) = consecutive_errors st + 1
   \<and> consecutive_errors (face_iteration cv st UnexpectedException) = consecutive_errors st + 1
   \<and> consecutive_errors (face_iteration cv st (Frame img now)) = 0
   \<and> stopped (face_iteration cv st NotAvailable) = (stopped st \<or> 10 \<le> consecutive_errors st + 1)
   \<and> (10 \<le> consecutive_errors (run_face_detection_loop cv evs)
        \<longrightarrow> stopped (run_face_detection_loop cv evs))
   \<and> (n < 10 \<longrightarrow> run_face_detection_loop cv (replicate n NotAvailable)
        = \<lparr>consecutive_errors = n, stopped = False, face_reports = []\<rparr>)
   \<and> (10 \<le> n \<longrightarrow> run_face_detection_loop cv (replicate n NotAvailable @ evs)
        = \<lparr>consecutive_errors = 10, stopped = True, face_reports = []\<rparr>)
   \<and> consecutive_errors (motion_iteration cv mst NotAvailable) = consecutive_errors mst + 1
   \<and> consecutive_errors (motion_iteration cv mst UnexpectedException) = consecutive_errors mst + 1
   \<and> consecutive_errors (motion_iteration cv mst (Frame img now)) = 0
   \<and> stopped (motion_iteration cv mst NotAvailable) = (stopped mst \<or> 10 \<le> consecutive_errors mst + 1)
   \<and> (10 \<le> consecutive_errors (run_motion_detection_loop cv evs :: 'gray motion_loop)
        \<longrightarrow> stopped (run_motion_detection_loop cv evs :: 'gray motion_loop))
   \<and> (n < 10 \<longrightarrow> (run_motion_detection_loop cv (replicate n NotAvailable) :: 'gray motion_loop)
        = motion_start\<lparr>consecutive_errors := n\<rparr>)
   \<and> (10 \<le> n \<longrightarrow> (run_motion_detection_loop cv (replicate n NotAvailable @ evs) :: 'gray motion_loop)
        = motion_start\<lparr>consecutive_errors := 10, stopped := True\<rparr>)"
proof -
  have f1: "consecutive_errors (face_iteration cv st NotAvailable) = consecutive_errors st + 1"
    and f2: "consecutive_errors (face_iteration cv st UnexpectedException) = consecutive_errors st + 1"
    and f3: "stopped (face_iteration cv st NotAvailable) = (stopped st \<or> 10 \<le> consecutive_errors st + 1)"
    by (simp_all add: face_iteration_def count_error_counter count_error_stopped
        max_consecutive_errors_def)
  have f4: "10 \<le> consecutive_errors (run_face_detection_loop cv evs)
        \<longrightarrow> stopped (run_face_detection_loop cv evs)"
    using face_loop_ceiling[of face_start cv evs]
    by (simp add: run_face_detection_loop_def face_start_def max_consecutive_errors_def)
  have m1: "consecutive_errors (motion_iteration cv mst NotAvailable) = consecutive_errors mst + 1"
    and m2: "consecutive_errors (motion_iteration cv mst UnexpectedException) = consecutive_errors mst + 1"
    and m3: "stopped (motion_iteration cv mst NotAvailable) = (stopped mst \<or> 10 \<le> consecutive_errors mst + 1)"
    by (simp_all add: motion_iteration_def count_error_counter count_error_stopped
        max_consecutive_errors_def)
  have m4: "10 \<le> consecutive_errors (run_motion_detection_loop cv evs :: 'gray motion_loop)
        \<longrightarrow> stopped (run_motion_detection_loop cv evs :: 'gray motion_loop)"
    using motion_loop_ceiling[of "motion_start :: 'gray motion_loop" cv evs]
    by (simp add: run_motion_detection_loop_def motion_start_def max_consecutive_errors_def)
  show ?thesis
    using f1 f2 f3 f4 m1 m2 m3 m4 face_frame_counter[of cv st img now]
      motion_frame_counter[of cv mst img now]
      face_few_failures[of n cv] face_ten_failures[of n cv evs]
      motion_few_failures[of n cv] motion_ten_failures[of n cv evs]
    by (simp add: max_consecutive_errors_def)
qed

theorem C3_consecutive_errors_witness:
  "consecutive_errors (run_face_detection_loop scene_cv2 (replicate 10 NotAvailable)) = 10
   \<and> stopped (run_face_detection_loop scene_cv2 (replicate 10 NotAvailable))
   \<and> (9 :: nat) < 10
   \<and> run_face_detection_loop scene_cv2 (replicate 9 NotAvailable)
        = \<lparr>consecutive_errors = 9, stopped = False, face_reports = []\<rparr>
   \<and> (10 :: nat) \<le> 11
   \<and> run_face_detection_loop scene_cv2
        (replicate 11 NotAvailable @ [Frame (vga ([(0, 0, 640, 480)], [])) 1700000000])
        = \<lparr>consecutive_errors = 10, stopped = True, face_reports = []\<rparr>
   \<and> consecutive_errors (run_motion_detection_loop scene_cv2 (replicate 10 NotAvailable)
        :: ((nat \<times> nat) \<times> scene) motion_loop) = 10
   \<and> stopped (run_motion_detection_loop scene_cv2 (replicate 10 NotAvailable)
        :: ((nat \<times> nat) \<times> scene) motion_loop)
   \<and> (run_motion_detection_loop scene_cv2 (replicate 9 NotAvailable)
        :: ((nat \<times> nat) \<times> scene) motion_loop) = motion_start\<lparr>consecutive_errors := 9\<rparr>
   \<and> (run_motion_detection_loop scene_cv2
        (replicate 11 NotAvailable @ [Frame (vga ([], [6000])) 1700000000])
        :: ((nat \<times> nat) \<times> scene) motion_loop)
        = motion_start\<lparr>consecutive_errors := 10, stopped := True\<rparr>"
proof -
  let ?face = "[Frame (vga ([(0, 0, 640, 480)], [])) 1700000000] :: scene event list"
  let ?motion = "[Frame (vga ([], [6000])) 1700000000] :: scene event list"
  have n9: "(9 :: nat) < 10" and n11: "(10 :: nat) \<le> 11" and n10: "(10 :: nat) \<le> 10"
    by simp_all
  have f10: "run_face_detection_loop scene_cv2 (replicate 10 NotAvailable @ [])
      = \<lparr>consecutive_errors = 10, stopped = True, face_reports = []\<rparr>"
    using C3_consecutive_errors[where cv = scene_cv2 and n = 10 and evs = "[]"] n10 by blast
  then have f10c: "10 \<le> consecutive_errors (run_face_detection_loop scene_cv2 (replicate 10 NotAvailable))"
    by simp
  have f10s: "stopped (run_face_detection_loop scene_cv2 (replicate 10 NotAvailable))"
    using C3_consecutive_errors[where cv = scene_cv2 and evs = "replicate 10 NotAvailable"] f10c
    by blast
  have f9: "run_face_detection_loop scene_cv2 (replicate 9 NotAvailable)
      = \<lparr>consecutive_errors = 9, stopped = False, face_reports = []\<rparr>"
    using C3_consecutive_errors[where cv = scene_cv2 and n = 9] n9 by blast
  have f11: "run_face_detection_loop scene_cv2 (replicate 11 NotAvailable @ ?face)
      = \<lparr>consecutive_errors = 10, stopped = True, face_reports = []\<rparr>"
    using C3_consecutive_errors[where cv = scene_cv2 and n = 11 and evs = ?face] n11 by blast
  have m10: "(run_motion_detection_loop scene_cv2 (replicate 10 NotAvailable @ [])
      :: ((nat \<times> nat) \<times> scene) motion_loop)
      = motion_start\<lparr>consecutive_errors := 10, stopped := True\<rparr>"
    using C3_consecutive_errors[where cv = scene_cv2 and n = 10 and evs = "[]"] n10 by blast
  then have m10c: "10 \<le> consecutive_errors (run_motion_detection_loop scene_cv2
      (replicate 10 NotAvailable) :: ((nat \<times> nat) \<times> scene) motion_loop)"
    by simp
  have m10s: "stopped (run_motion_detection_loop scene_cv2 (replicate 10 NotAvailable)
      :: ((nat \<times> nat) \<times> scene) motion_loop)"
    using C3_consecutive_errors[where cv = scene_cv2 and evs = "replicate 10 NotAvailable"] m10c
    by blast
  have m9: "(run_motion_detection_loop scene_cv2 (replicate 9 NotAvailable)
      :: ((nat \<times> nat) \<times> scene) motion_loop) = motion_start\<lparr>consecutive_errors := 9\<rparr>"
    using C3_consecutive_errors[where cv = scene_cv2 and n = 9] n9 by blast
  have m11: "(run_motion_detection_loop scene_cv2 (replicate 11 NotAvailable @ ?motion)
      :: ((nat \<times> nat) \<times> scene) motion_loop)
      = motion_start\<lparr>consecutive_errors := 10, stopped := True\<rparr>"
    using C3_consecutive_errors[where cv = scene_cv2 and n = 11 and evs = ?motion] n11 by blast
  from f10 f10s f9 f11 m10 m10s m9 m11 show ?thesis by simp
qed

section \<open>The report gate of the face loop\<close>

lemma py_int_floor: "0 \<le> x \<Longrightarrow> py_int x = \<lfloor>x\<rfloor>"
  by (simp add: py_int_def)

lemma face_gate:
  assumes "detect_faces cv img = (face_count, confidence, faces)" "0 \<le> now"
  shows "face_reports (face_iteration cv st (Frame img now)) =
     (if confidence \<ge> CONFIDENCE_THRESHOLD \<and> (face_count > 0 \<or> \<lfloor>now\<rfloor> mod 30 = 0)
      then face_reports st @ [(face_count, confidence)]
      else face_reports st)"
  using assms by (auto simp: face_iteration_def Let_def py_int_floor)

text \<open>
  Claim C7. In the face loop, for a frame acquired at a clock reading \<open>now\<close> that is not
  negative, \<^verbatim>\<open>log_detection\<close> is called if and only if the confidence is at least
  \<^verbatim>\<open>CONFIDENCE_THRESHOLD\<close> = 0.7 and (the face count is positive or the floor of \<open>now\<close> is
  a multiple of 30); the call carries the face count and the confidence.
\<close>

theorem C7_face_report_gate:
  "CONFIDENCE_THRESHOLD = 0.7
   \<and> (detect_faces cv img = (face_count, confidence, faces) \<and> 0 \<le> now \<longrightarrow>
        face_reports (face_iteration cv st (Frame img now)) =
          (if confidence \<ge> 0.7 \<and> (face_count > 0 \<or> \<lfloor>now\<rfloor> mod 30 = 0)
           then face_reports st @ [(face_count, confidence)]
           else face_reports st))"
  using face_gate[of cv img face_count confidence faces now st]
  by (simp add: CONFIDENCE_THRESHOLD_def)

theorem C7_face_report_gate_witness:
  "detect_faces scene_cv2 (vga ([(0, 0, 640, 480)], [])) = (1, 0.9, [(0, 0, 640, 480)])
   \<and> (0 :: real) \<le> 1700000007
   \<and> face_reports (face_iteration scene_cv2 face_start
        (Frame (vga ([(0, 0, 640, 480)], [])) 1700000007)) = [(1, 0.9)]
   \<and> detect_faces scene_cv2 (vga ([(0, 0, 64, 48)], [])) = (1, 13 / 25, [(0, 0, 64, 48)])
   \<and> (0 :: real) \<le> 1700000010
   \<and> face_reports (face_iteration scene_cv2 face_start
        (Frame (vga ([(0, 0, 64, 48)], [])) 1700000010)) = []"
proof -
  have d1: "detect_faces scene_cv2 (vga ([(0, 0, 640, 480)], [])) = (1, 0.9, [(0, 0, 640, 480)])"
    by (simp add: detect_faces_def cascade_faces_def scene_cv2_def vga_def face_confidence_def
        np_mean_def box_area_def)
  have d2: "detect_faces scene_cv2 (vga ([(0, 0, 64, 48)], [])) = (1, 13 / 25, [(0, 0, 64, 48)])"
    by (simp add: detect_faces_def cascade_faces_def scene_cv2_def vga_def face_confidence_def
        np_mean_def box_area_def)
  have t1: "(0 :: real) \<le> 1700000007" and t2: "(0 :: real) \<le> 1700000010" by simp_all
  have r1: "face_reports (face_iteration scene_cv2 face_start
        (Frame (vga ([(0, 0, 640, 480)], [])) 1700000007)) = [(1, 0.9)]"
    using C7_face_report_gate[of scene_cv2 "vga ([(0, 0, 640, 480)], [])" 1 "0.9"
        "[(0, 0, 640, 480)]" 1700000007 face_start] d1 t1
    by (simp add: face_start_def)
  have r2: "face_reports (face_iteration scene_cv2 face_start
        (Frame (vga ([(0, 0, 64, 48)], [])) 1700000010)) = []"
    using C7_face_report_gate[of scene_cv2 "vga ([(0, 0, 64, 48)], [])" 1 "13 / 25"
        "[(0, 0, 64, 48)]" 1700000010 face_start] d2 t2
    by (simp add: face_start_def)
  from d1 d2 r1 r2 show ?thesis by simp
qed

section \<open>No report without a face\<close>

lemma detect_faces_zero_count:
  "fst (detect_faces cv img) = 0 \<Longrightarrow> fst (snd (detect_faces cv img)) = 0"
  by (auto simp: detect_faces_def face_confidence_def split: sum.splits)

lemma face_no_faces_no_report:
  assumes "fst (detect_faces cv img) = 0"
  shows "face_reports (face_iteration cv st (Frame img now)) = face_reports st"
proof -
  obtain n c fs where d: "detect_faces cv img = (n, c, fs)" by (cases "detect_faces cv img") auto
  with assms detect_faces_zero_count[OF assms] have "n = 0" "c = 0" by auto
  with d show ?thesis by (simp add: face_iteration_def Let_def CONFIDENCE_THRESHOLD_def)
qed

lemma face_iteration_reports:
  "face_reports (face_iteration cv st ev) = face_reports st
   \<or> (\<exists>n c. 0 < n \<and> face_reports (face_iteration cv st ev) = face_reports st @ [(n, c)])"
proof (cases ev)
  case (Frame img now)
  obtain n c fs where d: "detect_faces cv img = (n, c, fs)" by (cases "detect_faces cv img") auto
  show ?thesis
  proof (cases "n = 0")
    case True
    with d have "fst (detect_faces cv img) = 0" by simp
    from face_no_faces_no_report[OF this] Frame show ?thesis by simp
  next
    case False
    with d Frame show ?thesis by (auto simp: face_iteration_def Let_def)
  qed
qed (simp_all add: face_iteration_def count_error_face_reports)

lemma face_loop_reports:
  assumes "\<forall>r\<in>set (face_reports st). 0 < fst r"
  shows "\<forall>r\<in>set (face_reports (face_loop_from cv st evs)). 0 < fst r"
  using assms
proof (induction evs arbitrary: st)
  case Nil
  then show ?case by simp
next
  case (Cons ev evs)
  have "\<forall>r\<in>set (face_reports (face_iteration cv st ev)). 0 < fst r"
    using face_iteration_reports[of cv st ev] Cons.prems by auto
  from Cons.IH[OF this] this show ?case by (simp add: Let_def)
qed

text \<open>
  Claim C10. In the face loop a frame in which no face is counted never produces a
  report: its confidence is 0, below the threshold, so the 30-second condition alone
  sends nothing; every report of a run of the loop carries a positive face count.
\<close>

theorem C10_no_faces_no_report:
  "(fst (detect_faces cv img) = 0 \<longrightarrow>
      fst (snd (detect_faces cv img)) = 0
      \<and> fst (snd (detect_faces cv img)) < CONFIDENCE_THRESHOLD
      \<and> face_reports (face_iteration cv st (Frame img now)) = face_reports st)
   \<and> (\<forall>r\<in>set (face_reports (run_face_detection_loop cv evs)). 0 < fst r)"
proof -
  have "\<forall>r\<in>set (face_reports (face_loop_from cv face_start evs)). 0 < fst r"
    by (rule face_loop_reports) (simp add: face_start_def)
  then show ?thesis
    using detect_faces_zero_count[of cv img] face_no_faces_no_report[of cv img st now]
    by (simp add: run_face_detection_loop_def CONFIDENCE_THRESHOLD_def)
qed

theorem C10_no_faces_no_report_witness:
  "fst (detect_faces scene_cv2 (vga ([], []))) = 0
   \<and> fst (snd (detect_faces scene_cv2 (vga ([], [])))) = 0
   \<and> \<lfloor>1700000010 :: real\<rfloor> mod 30 = 0
   \<and> face_reports (face_iteration scene_cv2 face_start (Frame (vga ([], [])) 1700000010)) = []
   \<and> face_reports (run_face_detection_loop scene_cv2
        [Frame (vga ([], [])) 1700000010, Frame (vga ([(0, 0, 640, 480)], [])) 1700000012])
      = [(1, 0.9)]
   \<and> (0 :: nat) < fst (1 :: nat, 0.9 :: real)"
proof -
  have d: "fst (detect_faces scene_cv2 (vga ([], []))) = 0"
    by (simp add: detect_faces_def cascade_faces_def scene_cv2_def vga_def)
  from C10_no_faces_no_report[of scene_cv2 "vga ([], [])" face_start 1700000010] d
  have a: "fst (snd (detect_faces scene_cv2 (vga ([], [])))) = 0"
    and b: "face_reports (face_iteration scene_cv2 face_start (Frame (vga ([], [])) 1700000010))
        = face_reports face_start"
    by blast+
  have r: "face_reports (run_face_detection_loop scene_cv2
        [Frame (vga ([], [])) 1700000010, Frame (vga ([(0, 0, 640, 480)], [])) 1700000012])
      = [(1, 0.9)]"
    by (simp add: run_face_detection_loop_def face_start_def face_iteration_def detect_faces_def
        cascade_faces_def scene_cv2_def vga_def face_confidence_def np_mean_def box_area_def
        CONFIDENCE_THRESHOLD_def py_int_def Let_def)
  from C10_no_faces_no_report[of scene_cv2 _ _ _
      "[Frame (vga ([], [])) 1700000010, Frame (vga ([(0, 0, 640, 480)], [])) 1700000012]"] r
  have c: "(0 :: nat) < fst (1 :: nat, 0.9 :: real)" by simp
  from d a b r c show ?thesis by (simp add: face_start_def)
qed

section \<open>The report gate of the motion loop\<close>

lemma motion_gate:
  assumes "detect_motion cv (detector st) img = ((motion_detected, motion_level, contours), self)"
  shows "motion_reports (motion_iteration cv st (Frame img now)) =
     (if motion_detected \<and> now - last_motion_log_time st \<ge> motion_cooldown
      then motion_reports st @ [(motion_level, length contours)]
      else motion_reports st)"
   and "last_motion_log_time (motion_iteration cv st (Frame img now)) =
     (if motion_detected \<and> now - last_motion_log_time st \<ge> motion_cooldown
      then now
      else last_motion_log_time st)"
  using assms by (auto simp: motion_iteration_def Let_def)

lemma motion_other_events:
  assumes "ev = NotAvailable \<or> ev = KeyboardInterrupt \<or> ev = UnexpectedException"
  shows "motion_reports (motion_iteration cv st ev) = motion_reports st"
    and "last_motion_log_time (motion_iteration cv st ev) = last_motion_log_time st"
  using assms by (auto simp: motion_iteration_def count_error_motion)

lemma motion_report_iff:
  "(length (motion_reports (motion_iteration cv st (Frame img now))) = length (motion_reports st) + 1)
   = (fst (fst (detect_motion cv (detector st) img)) \<and> now - last_motion_log_time st \<ge> motion_cooldown)"
  "length (motion_reports (motion_iteration cv st (Frame img now))) \<noteq> length (motion_reports st) + 1
    \<Longrightarrow> motion_reports (motion_iteration cv st (Frame img now)) = motion_reports st"
  "last_motion_log_time (motion_iteration cv st (Frame img now)) =
     (if fst (fst (detect_motion cv (detector st) img)) \<and> now - last_motion_log_time st \<ge> motion_cooldown
      then now else last_motion_log_time st)"
proof -
  obtain d l c s where dm: "detect_motion cv (detector st) img = ((d, l, c), s)"
    by (cases "detect_motion cv (detector st) img") auto
  from motion_gate[OF dm, of now] dm
  show "(length (motion_reports (motion_iteration cv st (Frame img now))) = length (motion_reports st) + 1)
   = (fst (fst (detect_motion cv (detector st) img)) \<and> now - last_motion_log_time st \<ge> motion_cooldown)"
    and "length (motion_reports (motion_iteration cv st (Frame img now))) \<noteq> length (motion_reports st) + 1
    \<Longrightarrow> motion_reports (motion_iteration cv st (Frame img now)) = motion_reports st"
    and "last_motion_log_time (motion_iteration cv st (Frame img now)) =
     (if fst (fst (detect_motion cv (detector st) img)) \<and> now - last_motion_log_time st \<ge> motion_cooldown
      then now else last_motion_log_time st)"
    by (auto split: if_splits)
qed


text \<open>
  Claim C6. In the motion loop, for an acquired frame, \<^verbatim>\<open>log_detection\<close> is called if and
  only if the detector's result is significant and \<open>now\<close> minus the time of the last report
  is at least the cooldown of 5 seconds, and the time of the last report becomes \<open>now\<close>
  exactly when the call is made; a frame that is not available, an interrupt and an
  unexpected exception send nothing and leave that time alone. Hence, of three
  consecutive significant frames of which the first is reported, the second less than
  5 seconds after the first and the third at least 5 seconds after the first, the second
  is not reported and the third is.
\<close>

theorem C6_motion_report_gate:
  "motion_cooldown = 5
   \<and> (detect_motion cv (detector st) img = ((motion_detected, motion_level, contours), self) \<longrightarrow>
        motion_reports (motion_iteration cv st (Frame img now)) =
          (if motion_detected \<and> now - last_motion_log_time st \<ge> 5
           then motion_reports st @ [(motion_level, length contours)]
           else motion_reports st)
        \<and> last_motion_log_time (motion_iteration cv st (Frame img now)) =
          (if motion_detected \<and> now - last_motion_log_time st \<ge> 5
           then now
           else last_motion_log_time st))
   \<and> (ev = NotAvailable \<or> ev = KeyboardInterrupt \<or> ev = UnexpectedException \<longrightarrow>
        motion_reports (motion_iteration cv st ev) = motion_reports st
        \<and> last_motion_log_time (motion_iteration cv st ev) = last_motion_log_time st)
   \<and> (let st1 = motion_iteration cv st (Frame f1 t1);
           st2 = motion_iteration cv st1 (Frame f2 t2);
           st3 = motion_iteration cv st2 (Frame f3 t3)
       in fst (fst (detect_motion cv (detector st) f1))
          \<and> fst (fst (detect_motion cv (detector st1) f2))
          \<and> fst (fst (detect_motion cv (detector st2) f3))
          \<and> t1 - last_motion_log_time st \<ge> 5 \<and> t2 - t1 < 5 \<and> t3 - t1 \<ge> 5 \<longrightarrow>
          length (motion_reports st1) = length (motion_reports st) + 1
          \<and> motion_reports st2 = motion_reports st1
          \<and> length (motion_reports st3) = length (motion_reports st2) + 1)"
proof -
  have gate: "detect_motion cv (detector st) img = ((motion_detected, motion_level, contours), self) \<longrightarrow>
        motion_reports (motion_iteration cv st (Frame img now)) =
          (if motion_detected \<and> now - last_motion_log_time st \<ge> 5
           then motion_reports st @ [(motion_level, length contours)]
           else motion_reports st)
        \<and> last_motion_log_time (motion_iteration cv st (Frame img now)) =
          (if motion_detected \<and> now - last_motion_log_time st \<ge> 5
           then now
           else last_motion_log_time st)"
    using motion_gate[of cv st img motion_detected motion_level contours self now]
    by (simp add: motion_cooldown_def)
  have other: "ev = NotAvailable \<or> ev = KeyboardInterrupt \<or> ev = UnexpectedException \<longrightarrow>
        motion_reports (motion_iteration cv st ev) = motion_reports st
        \<and> last_motion_log_time (motion_iteration cv st ev) = last_motion_log_time st"
    using motion_other_events[of ev cv st] by blast
  define st1 where "st1 = motion_iteration cv st (Frame f1 t1)"
  define st2 where "st2 = motion_iteration cv st1 (Frame f2 t2)"
  define st3 where "st3 = motion_iteration cv st2 (Frame f3 t3)"
  have scenario: "length (motion_reports st1) = length (motion_reports st) + 1
          \<and> motion_reports st2 = motion_reports st1
          \<and> length (motion_reports st3) = length (motion_reports st2) + 1"
    if sig: "fst (fst (detect_motion cv (detector st) f1))"
      "fst (fst (detect_motion cv (detector st1) f2))"
      "fst (fst (detect_motion cv (detector st2) f3))"
      and times: "t1 - last_motion_log_time st \<ge> 5" "t2 - t1 < 5" "t3 - t1 \<ge> 5"
  proof -
    have r1: "length (motion_reports st1) = length (motion_reports st) + 1"
      and l1: "last_motion_log_time st1 = t1"
      using motion_report_iff(1,3)[of cv st f1 t1] sig(1) times(1)
      by (simp_all add: st1_def motion_cooldown_def)
    have n2: "length (motion_reports st2) \<noteq> length (motion_reports st1) + 1"
      and l2: "last_motion_log_time st2 = t1"
      using motion_report_iff(1,3)[of cv st1 f2 t2] times(2) l1
      by (simp_all add: st2_def motion_cooldown_def)
    from motion_report_iff(2)[of cv st1 f2 t2] n2
    have r2: "motion_reports st2 = motion_reports st1" by (simp add: st2_def)
    have r3: "length (motion_reports st3) = length (motion_reports st2) + 1"
      using motion_report_iff(1)[of cv st2 f3 t3] sig(3) times(3) l2
      by (simp add: st3_def motion_cooldown_def)
    from r1 r2 r3 show ?thesis by simp
  qed
  show ?thesis
    using gate other scenario
    unfolding Let_def st1_def st2_def st3_def
    by (simp only: motion_cooldown_def) blast
qed

lemmas scene_simps = scene_cv2_def vga_def detect_motion_def blurred_gray_def compare_frames_def
  MIN_CONTOUR_AREA_def MOTION_THRESHOLD_def BLUR_SIZE_def

lemma watching_eval:
  "watching = motion_start\<lparr>detector :=
     \<lparr>previous_frame = Some ((480, 640), [], []), motion_detected_time = None\<rparr>\<rparr>"
  by (simp add: watching_def run_motion_detection_loop_def motion_iteration_def motion_start_def
      scene_simps)

theorem C6_motion_report_gate_witness:
  "detect_motion scene_cv2 (detector watching) (vga ([], [6000]))
     = ((True, 6000, [6000]),
        \<lparr>previous_frame = Some ((480, 640), [], [6000]), motion_detected_time = None\<rparr>)
   \<and> (1700000001 :: real) - last_motion_log_time watching \<ge> 5
   \<and> motion_reports motion_seen = [(6000, 1)]
   \<and> last_motion_log_time motion_seen = 1700000001
   \<and> detect_motion scene_cv2 (detector watching) (vga ([], [300]))
     = ((False, 0, []),
        \<lparr>previous_frame = Some ((480, 640), [], [300]), motion_detected_time = None\<rparr>)
   \<and> motion_reports (motion_iteration scene_cv2 watching (Frame (vga ([], [300])) 1700000001)) = []
   \<and> last_motion_log_time (motion_iteration scene_cv2 watching (Frame (vga ([], [300])) 1700000001)) = 0
   \<and> motion_reports (motion_iteration scene_cv2 motion_seen NotAvailable) = [(6000, 1)]
   \<and> last_motion_log_time (motion_iteration scene_cv2 motion_seen NotAvailable) = 1700000001
   \<and> fst (fst (detect_motion scene_cv2 (detector motion_seen) (vga ([], [7000]))))
   \<and> fst (fst (detect_motion scene_cv2 (detector motion_again) (vga ([], [8000, 200, 600]))))
   \<and> (1700000003 :: real) - 1700000001 < 5
   \<and> (1700000006 :: real) - 1700000001 \<ge> 5
   \<and> length (motion_reports motion_seen) = length (motion_reports watching) + 1
   \<and> motion_reports motion_again = motion_reports motion_seen
   \<and> length (motion_reports motion_later) = length (motion_reports motion_again) + 1"
proof -
  have d1: "detect_motion scene_cv2 (detector watching) (vga ([], [6000]))
     = ((True, 6000, [6000]),
        \<lparr>previous_frame = Some ((480, 640), [], [6000]), motion_detected_time = None\<rparr>)"
    by (simp add: watching_eval motion_start_def scene_simps)
  have t1: "(1700000001 :: real) - last_motion_log_time watching \<ge> 5"
    by (simp add: watching_eval motion_start_def)
  have w: "motion_reports watching = []" "last_motion_log_time watching = 0"
    by (simp_all add: watching_eval motion_start_def)
  from C6_motion_report_gate[of scene_cv2 watching "vga ([], [6000])" True 6000 "[6000]" _
      1700000001] d1 t1
  have r1: "motion_reports motion_seen = [(6000, 1)]"
    and l1: "last_motion_log_time motion_seen = 1700000001"
    by (simp_all add: motion_seen_def w)
  have d0: "detect_motion scene_cv2 (detector watching) (vga ([], [300]))
     = ((False, 0, []),
        \<lparr>previous_frame = Some ((480, 640), [], [300]), motion_detected_time = None\<rparr>)"
    by (simp add: watching_eval motion_start_def scene_simps)
  from C6_motion_report_gate[of scene_cv2 watching "vga ([], [300])" False 0 "[]" _
      1700000001] d0
  have r0: "motion_reports (motion_iteration scene_cv2 watching (Frame (vga ([], [300])) 1700000001)) = []"
    and l0: "last_motion_log_time (motion_iteration scene_cv2 watching (Frame (vga ([], [300])) 1700000001)) = 0"
    by (simp_all add: w)
  from C6_motion_report_gate[of scene_cv2 motion_seen _ _ _ _ _ _ NotAvailable] r1 l1
  have rn: "motion_reports (motion_iteration scene_cv2 motion_seen NotAvailable) = [(6000, 1)]"
    and ln: "last_motion_log_time (motion_iteration scene_cv2 motion_seen NotAvailable) = 1700000001"
    by simp_all
  have seen: "detector motion_seen = \<lparr>previous_frame = Some ((480, 640), [], [6000]),
      motion_detected_time = Some 1700000001\<rparr>"
    by (simp add: motion_seen_def motion_iteration_def watching_eval motion_start_def scene_simps
        motion_cooldown_def)
  have s1: "fst (fst (detect_motion scene_cv2 (detector watching) (vga ([], [6000]))))"
    using d1 by simp
  have s2: "fst (fst (detect_motion scene_cv2 (detector motion_seen) (vga ([], [7000]))))"
    by (simp add: seen scene_simps)
  have again: "detector motion_again = \<lparr>previous_frame = Some ((480, 640), [], [7000]),
      motion_detected_time = Some 1700000001\<rparr>"
    by (simp add: motion_again_def motion_iteration_def seen l1 scene_simps motion_cooldown_def)
  have s3: "fst (fst (detect_motion scene_cv2 (detector motion_again) (vga ([], [8000, 200, 600]))))"
    by (simp add: again scene_simps)
  have t2: "(1700000003 :: real) - 1700000001 < 5" and t3: "(1700000006 :: real) - 1700000001 \<ge> 5"
    by simp_all
  from C6_motion_report_gate[of scene_cv2 watching _ _ _ _ _ _ _
      "vga ([], [6000])" 1700000001 "vga ([], [7000])" 1700000003
      "vga ([], [8000, 200, 600])" 1700000006]
    s1 s2 s3 t1 t2 t3
  have sc: "length (motion_reports motion_seen) = length (motion_reports watching) + 1
      \<and> motion_reports motion_again = motion_reports motion_seen
      \<and> length (motion_reports motion_later) = length (motion_reports motion_again) + 1"
    unfolding Let_def motion_seen_def[symmetric] motion_again_def[symmetric]
      motion_later_def[symmetric]
    by blast
  from d1 t1 r1 l1 d0 r0 l0 rn ln s2 s3 t2 t3 sc show ?thesis by simp
qed

section \<open>The motion detector's stored frame\<close>








lemma detect_motion_compared:
  assumes "previous_frame self = Some previous" "blurred_gray cv frame = Inr gray"
    and "compare_frames cv previous gray = Inr (motion_level, kept)"
  shows "detect_motion cv self frame =
     ((motion_level > MOTION_THRESHOLD, motion_level, kept), self\<lparr>previous_frame := Some gray\<rparr>)"
  using assms by (simp add: detect_motion_def)

lemma detect_motion_comparison_raises:
  assumes "previous_frame self = Some previous" "blurred_gray cv frame = Inr gray"
    and "compare_frames cv previous gray = Inl e"
  shows "detect_motion cv self frame = ((False, 0, []), self)"
  using assms by (simp add: detect_motion_def)

lemma qvga_after_vga:
  assumes "previous_frame self = Some ((480, 640), old)"
  shows "detect_motion scene_cv2 self (qvga sc) = ((False, 0, []), self)"
proof -
  have g: "blurred_gray scene_cv2 (qvga sc)
      = Inr ((240, 320), fst sc, filter (\<lambda>blob. 21 \<le> blob) (snd sc))"
    by (simp add: scene_cv2_def qvga_def blurred_gray_def BLUR_SIZE_def)
  have c: "compare_frames scene_cv2 ((480, 640), old)
      ((240, 320), fst sc, filter (\<lambda>blob. 21 \<le> blob) (snd sc)) = Inl CvError"
    by (simp add: compare_frames_def scene_cv2_def)
  from detect_motion_comparison_raises[OF assms g c] show ?thesis .
qed

lemma motion_loop_stuck:
  assumes "previous_frame (detector st) = Some ((480, 640), old)"
  shows "motion_reports (motion_loop_from scene_cv2 st (map (\<lambda>(sc, now). Frame (qvga sc) now) frames))
           = motion_reports st
         \<and> previous_frame (detector (motion_loop_from scene_cv2 st
               (map (\<lambda>(sc, now). Frame (qvga sc) now) frames))) = Some ((480, 640), old)"
  using assms
proof (induction frames arbitrary: st)
  case Nil
  then show ?case by simp
next
  case (Cons f frames)
  obtain sc now where f: "f = (sc, now)" by (cases f)
  let ?st = "motion_iteration scene_cv2 st (Frame (qvga sc) now)"
  have it: "?st = st\<lparr>consecutive_errors := 0\<rparr>"
    using qvga_after_vga[OF Cons.prems, of sc] by (simp add: motion_iteration_def)
  then have keep: "previous_frame (detector ?st) = Some ((480, 640), old)"
    "motion_reports ?st = motion_reports st"
    using Cons.prems by simp_all
  from Cons.IH[OF keep(1)] keep show ?case by (simp add: f Let_def)
qed

text \<open>
  Claim C5 at a change of the frame size. With a frame of 480 by 640 stored, a frame of
  240 by 320 makes \<^verbatim>\<open>cv2.absdiff\<close> raise: \<^verbatim>\<open>detect_motion\<close> returns \<^verbatim>\<open>(False, 0, [])\<close> and
  the stored frame is not replaced by the blurred grayscale of the current frame. The
  same happens on every later frame of the new size, so the loop never reports again.
\<close>

theorem C5_size_change_keeps_old_frame:
  "previous_frame (detector watching) = Some ((480, 640), [], [])
   \<and> cvtColor scene_cv2 (qvga ([], [6000])) = Inr ((240, 320), [], [6000])
   \<and> GaussianBlur scene_cv2 ((240, 320), [], [6000]) (21, 21) = Inr ((240, 320), [], [6000])
   \<and> absdiff scene_cv2 ((480, 640), [], []) ((240, 320), [], [6000]) = Inl CvError
   \<and> detect_motion scene_cv2 (detector watching) (qvga ([], [6000]))
       = ((False, 0, []), detector watching)
   \<and> previous_frame (snd (detect_motion scene_cv2 (detector watching) (qvga ([], [6000]))))
       \<noteq> Some ((240, 320), [], [6000])
   \<and> (\<forall>frames.
        motion_reports (motion_loop_from scene_cv2 watching
            (map (\<lambda>(sc, now). Frame (qvga sc) now) frames)) = []
        \<and> previous_frame (detector (motion_loop_from scene_cv2 watching
            (map (\<lambda>(sc, now). Frame (qvga sc) now) frames))) = Some ((480, 640), [], []))"
proof -
  have p: "previous_frame (detector watching) = Some ((480, 640), [], [])"
    and r: "motion_reports watching = []"
    by (simp_all add: watching_eval motion_start_def)
  have g: "cvtColor scene_cv2 (qvga ([], [6000])) = Inr ((240, 320), [], [6000])"
    "GaussianBlur scene_cv2 ((240, 320), [], [6000]) (21, 21) = Inr ((240, 320), [], [6000])"
    by (simp_all add: scene_cv2_def qvga_def)
  have a: "absdiff scene_cv2 ((480, 640), [], []) ((240, 320), [], [6000]) = Inl CvError"
    by (simp add: scene_cv2_def)
  have d: "detect_motion scene_cv2 (detector watching) (qvga ([], [6000]))
       = ((False, 0, []), detector watching)"
    by (rule qvga_after_vga[OF p])
  from motion_loop_stuck[OF p] r
  have s: "motion_reports (motion_loop_from scene_cv2 watching
            (map (\<lambda>(sc, now). Frame (qvga sc) now) frames)) = []
        \<and> previous_frame (detector (motion_loop_from scene_cv2 watching
            (map (\<lambda>(sc, now). Frame (qvga sc) now) frames))) = Some ((480, 640), [], [])"
    for frames by simp
  from p g a d s show ?thesis by simp
qed

section \<open>The reporter's outcomes\<close>

lemma log_detection_ok:
  assumes "requests_post = Inr response" "status_code response = 200"
    and "json_body response = Some (JsonObject kvs)"
  shows "log_detection requests_post
     = (True, Logged (case map_of kvs ''id'' of None \<Rightarrow> ''unknown'' | Some v \<Rightarrow> v))"
  using assms by (simp add: log_detection_def post_and_check_def response_json_def json_get_def)

lemma log_detection_rejected:
  assumes "requests_post = Inr response" "status_code response \<noteq> 200"
  shows "\<exists>detail. log_detection requests_post = (False, FailedHTTP (status_code response) detail)"
  using assms by (simp add: log_detection_def post_and_check_def)

lemma log_detection_raised:
  assumes "requests_post = Inl e"
  shows "log_detection requests_post =
     (False, if e = RequestsTimeout then TimeoutLogging
             else if e = RequestsConnectionError then ConnectionErrorLogging
             else ErrorLogging e)"
  using assms by (simp add: log_detection_def post_and_check_def)

lemma log_detection_swallows:
  assumes "post_and_check requests_post = Inl e"
  shows "fst (log_detection requests_post) = False"
  using assms by (simp add: log_detection_def)

lemma log_detection_success_iff:
  "fst (log_detection requests_post) \<longleftrightarrow>
     (\<exists>response kvs. requests_post = Inr response \<and> status_code response = 200
        \<and> json_body response = Some (JsonObject kvs))"
  by (auto simp: log_detection_def post_and_check_def response_json_def json_get_def
      split: sum.splits option.splits json.splits if_splits)

text \<open>
  Claim C8 at a response with status 200 whose body is not a JSON object. In the example
  scripts \<^verbatim>\<open>response.json()\<close> (or \<^verbatim>\<open>result.get\<close>) raises inside the \<^verbatim>\<open>try\<close> and
  \<^verbatim>\<open>log_detection\<close> returns \<^verbatim>\<open>False\<close> with the general error line, although the server
  answered 200. With an empty JSON object the same call returns \<^verbatim>\<open>True\<close>; the branch for
  another status reads the same body behind a handler of its own; and the minimal
  server-side script counts the same response as logged.
\<close>

theorem C8_ok_status_without_json_object:
  "status_code \<lparr>status_code = 200, json_body = None, body_text = ''OK''\<rparr> = 200
   \<and> log_detection (Inr \<lparr>status_code = 200, json_body = None, body_text = ''OK''\<rparr>)
       = (False, ErrorLogging JSONDecodeError)
   \<and> log_detection (Inr \<lparr>status_code = 200, json_body = Some JsonOther, body_text = ''[]''\<rparr>)
       = (False, ErrorLogging AttributeError)
   \<and> log_detection (Inr \<lparr>status_code = 200, json_body = Some (JsonObject []), body_text = ''{}''\<rparr>)
       = (True, Logged ''unknown'')
   \<and> log_detection (Inr \<lparr>status_code = 500, json_body = None, body_text = ''OK''\<rparr>)
       = (False, FailedHTTP 500 ''OK'')
   \<and> server_log_detection (Inr \<lparr>status_code = 200, json_body = None, body_text = ''OK''\<rparr>)
       = LoggedFaces"
  by (simp add: log_detection_def post_and_check_def response_json_def json_get_def
      server_log_detection_def)

section \<open>Markers in a growing buffer\<close>

lemma marker_at_length: "marker_at sub xs k \<Longrightarrow> sub \<noteq> [] \<Longrightarrow> k + length sub \<le> length xs"
proof -
  assume m: "marker_at sub xs k" and ne: "sub \<noteq> []"
  then have "length (take (length sub) (drop k xs)) = length sub" by (simp add: marker_at_def)
  with ne show ?thesis by (cases "k \<le> length xs") auto
qed

lemma marker_at_append: "marker_at sub xs k \<Longrightarrow> marker_at sub (xs @ ys) k"
proof (cases "sub = []")
  case True
  then show ?thesis by (simp add: marker_at_def)
next
  case False
  assume m: "marker_at sub xs k"
  from marker_at_length[OF m False]
  have "take (length sub) (drop k (xs @ ys)) = take (length sub) (drop k xs)" by simp
  with m show ?thesis by (simp add: marker_at_def)
qed

lemma marker_at_inside:
  "k + length sub \<le> length xs \<Longrightarrow> marker_at sub (xs @ ys) k = marker_at sub xs k"
  by (simp add: marker_at_def)

lemma has_frame_pair_append: "has_frame_pair xs \<Longrightarrow> has_frame_pair (xs @ ys)"
  unfolding has_frame_pair_def by (blast intro: marker_at_append)

lemma bytes_find_cases:
  "bytes_find buf sub = -1 \<and> (\<forall>k\<le>length buf. \<not> marker_at sub buf k)
   \<or> (\<exists>k. bytes_find buf sub = int k \<and> marker_at sub buf k \<and> (\<forall>j<k. \<not> marker_at sub buf j))"
proof (cases "bytes_find buf sub = -1")
  case True
  then show ?thesis using find_from_none[of sub buf 0] by (simp add: bytes_find_def)
next
  case False
  then obtain k where k: "find_from sub buf 0 = int (0 + k)"
    using find_from_found[of sub buf 0] by (auto simp: bytes_find_def)
  from find_from_first[OF this] k show ?thesis by (auto simp: bytes_find_def)
qed

lemma frame_test_has_pair:
  assumes "bytes_find buf SOI \<noteq> -1" "bytes_find buf EOI \<noteq> -1"
    and "bytes_find buf EOI > bytes_find buf SOI"
  shows "has_frame_pair buf"
proof -
  from assms(1) bytes_find_cases[of buf SOI]
  obtain s where s: "bytes_find buf SOI = int s" "marker_at SOI buf s" by auto
  from assms(2) bytes_find_cases[of buf EOI]
  obtain e where e: "bytes_find buf EOI = int e" "marker_at EOI buf e" by auto
  from assms(3) s e have "s < e" by simp
  with s e show ?thesis unfolding has_frame_pair_def by blast
qed

text \<open>What a scan extracts when the first start marker lies before the first end marker.\<close>

lemma bytes_slice_nat: "bytes_slice xs (int s) (int e + 2) = take (e + 2 - s) (drop s xs)"
  by (simp add: bytes_slice_def py_index_def drop_take nat_add_distrib)

lemma read_frames_extracts:
  assumes "chunk \<noteq> []" "bytes_find (buf @ chunk) SOI = int s" "bytes_find (buf @ chunk) EOI = int e"
    and "s < e"
  shows "read_frames imdecode buf (Inr chunk # reads)
         = imdecode (take (e + 2 - s) (drop s (buf @ chunk)))"
  using assms by (simp add: Let_def bytes_slice_nat)

lemma server_scan_extracts:
  assumes "bytes_find buf SOI = int s" "bytes_find buf EOI = int e"
  shows "server_scan buf = (Some (take (e + 2 - s) (drop s buf)), drop (e + 2) buf)"
  using assms
  by (simp add: server_scan_def Let_def bytes_slice_nat bytes_from_def py_index_def nat_add_distrib)

section \<open>The frame source returns instead of raising\<close>

lemma read_frames_no_pair:
  assumes "\<not> has_frame_pair (buf @ concat chunks)"
  shows "read_frames imdecode buf (map Inr chunks) = Inr None"
  using assms
proof (induction chunks arbitrary: buf)
  case Nil
  then show ?case by simp
next
  case (Cons chunk chunks)
  show ?case
  proof (cases "chunk = []")
    case True
    then show ?thesis by simp
  next
    case False
    have np: "\<not> has_frame_pair (buf @ chunk)"
      using Cons.prems has_frame_pair_append[of "buf @ chunk" "concat chunks"] by auto
    then have t: "\<not> (bytes_find (buf @ chunk) SOI \<noteq> -1 \<and> bytes_find (buf @ chunk) EOI \<noteq> -1
        \<and> bytes_find (buf @ chunk) EOI > bytes_find (buf @ chunk) SOI)"
      using frame_test_has_pair[of "buf @ chunk"] by blast
    have "read_frames imdecode (buf @ chunk) (map Inr chunks) = Inr None"
      using Cons.prems by (intro Cons.IH) simp
    with False t show ?thesis by (auto simp: Let_def)
  qed
qed

lemma read_frames_no_pair_raise:
  assumes "\<not> has_frame_pair (buf @ concat chunks)" "[] \<notin> set chunks"
  shows "read_frames imdecode buf (map Inr chunks @ Inl e # reads) = Inl e"
  using assms
proof (induction chunks arbitrary: buf)
  case Nil
  then show ?case by simp
next
  case (Cons chunk chunks)
  from Cons.prems have ne: "chunk \<noteq> []" by auto
  have np: "\<not> has_frame_pair (buf @ chunk)"
    using Cons.prems has_frame_pair_append[of "buf @ chunk" "concat chunks"] by auto
  then have t: "\<not> (bytes_find (buf @ chunk) SOI \<noteq> -1 \<and> bytes_find (buf @ chunk) EOI \<noteq> -1
      \<and> bytes_find (buf @ chunk) EOI > bytes_find (buf @ chunk) SOI)"
    using frame_test_has_pair[of "buf @ chunk"] by blast
  have "read_frames imdecode (buf @ chunk) (map Inr chunks @ Inl e # reads) = Inl e"
    using Cons.prems by (intro Cons.IH) simp_all
  with ne t show ?case by (auto simp: Let_def)
qed

text \<open>
  Claim C9, as amended. \<^verbatim>\<open>get_frame_from_stream\<close> returns \<^verbatim>\<open>None\<close> instead of raising: when
  \<^verbatim>\<open>urlopen\<close> raises (connection refused, timeout) it returns \<^verbatim>\<open>None\<close> and prints the
  cause; when the stream ends and the bytes received hold no start marker followed by an
  end marker it returns \<^verbatim>\<open>None\<close> and prints nothing; when a read raises (timeout, reset)
  after chunks that hold no such pair it returns \<^verbatim>\<open>None\<close> and prints the cause; and
  whatever exception the reading raises is printed and turned into \<^verbatim>\<open>None\<close>.
\<close>

theorem C9_frame_source_never_raises:
  "get_frame_from_stream imdecode (Inl e) = (None, [ErrorGettingFrame e])
   \<and> (\<not> has_frame_pair (concat chunks) \<longrightarrow>
        get_frame_from_stream imdecode (Inr (map Inr chunks)) = (None, []))
   \<and> (\<not> has_frame_pair (concat chunks) \<and> [] \<notin> set chunks \<longrightarrow>
        get_frame_from_stream imdecode (Inr (map Inr chunks @ Inl e # reads))
          = (None, [ErrorGettingFrame e]))
   \<and> (\<forall>raised. read_frames imdecode [] reads = Inl raised \<longrightarrow>
        get_frame_from_stream imdecode (Inr reads) = (None, [ErrorGettingFrame raised]))"
  using read_frames_no_pair[of "[]" chunks imdecode]
    read_frames_no_pair_raise[of "[]" chunks imdecode e reads]
  by (simp add: get_frame_from_stream_def)


lemma no_end_marker_no_pair:
  assumes "bytes_find buf EOI = -1"
  shows "\<not> has_frame_pair buf"
proof
  assume "has_frame_pair buf"
  then obtain e where e: "marker_at EOI buf e" unfolding has_frame_pair_def by blast
  from marker_at_length[OF e] have "e \<le> length buf" by (simp add: EOI_def)
  moreover from assms have "\<forall>k\<le>length buf. \<not> marker_at EOI buf k"
    using find_from_none[of EOI buf 0] by (simp add: bytes_find_def)
  ultimately show False using e by blast
qed

text \<open>
  Claim C9 as stated fails for a stream that ends in the middle of a frame: the call
  returns \<^verbatim>\<open>None\<close>, and no cause is printed by it.
\<close>

theorem C9_end_of_stream_not_logged_counterexample:
  "\<not> has_frame_pair (concat half_frame)
   \<and> fst (get_frame_from_stream decode_all (Inr (map Inr half_frame))) = None
   \<and> snd (get_frame_from_stream decode_all (Inr (map Inr half_frame))) = []"
proof -
  have "bytes_find (concat half_frame) EOI = -1"
    by (simp add: half_frame_def bytes_find_def EOI_def)
  then have np: "\<not> has_frame_pair (concat half_frame)" by (rule no_end_marker_no_pair)
  then have "read_frames decode_all [] (map Inr half_frame) = Inr None"
    by (intro read_frames_no_pair) simp
  with np show ?thesis by (simp add: get_frame_from_stream_def)
qed

theorem C9_frame_source_never_raises_witness:
  "get_frame_from_stream decode_all (Inl URLError) = (None, [ErrorGettingFrame URLError])
   \<and> \<not> has_frame_pair (concat half_frame)
   \<and> get_frame_from_stream decode_all (Inr (map Inr half_frame)) = (None, [])
   \<and> [] \<notin> set half_frame
   \<and> get_frame_from_stream decode_all (Inr (map Inr half_frame @ [Inl SocketTimeout]))
       = (None, [ErrorGettingFrame SocketTimeout])
   \<and> read_frames decode_all [] (map Inr half_frame @ [Inl ConnectionResetError, Inr EOI])
       = Inl ConnectionResetError
   \<and> get_frame_from_stream decode_all
        (Inr (map Inr half_frame @ [Inl ConnectionResetError, Inr EOI]))
       = (None, [ErrorGettingFrame ConnectionResetError])"
proof -
  have "bytes_find (concat half_frame) EOI = -1"
    by (simp add: half_frame_def bytes_find_def EOI_def)
  then have np: "\<not> has_frame_pair (concat half_frame)" by (rule no_end_marker_no_pair)
  have ne: "[] \<notin> set half_frame" by (simp add: half_frame_def)
  have a: "get_frame_from_stream decode_all (Inl URLError) = (None, [ErrorGettingFrame URLError])"
    using C9_frame_source_never_raises[of decode_all URLError] by blast
  have b: "get_frame_from_stream decode_all (Inr (map Inr half_frame)) = (None, [])"
    using C9_frame_source_never_raises[of decode_all _ half_frame] np by blast
  have c: "get_frame_from_stream decode_all (Inr (map Inr half_frame @ [Inl SocketTimeout]))
       = (None, [ErrorGettingFrame SocketTimeout])"
    using C9_frame_source_never_raises[of decode_all SocketTimeout half_frame "[]"] np ne by blast
  have d: "get_frame_from_stream decode_all
        (Inr (map Inr half_frame @ [Inl ConnectionResetError, Inr EOI]))
       = (None, [ErrorGettingFrame ConnectionResetError])"
    using C9_frame_source_never_raises[of decode_all ConnectionResetError half_frame "[Inr EOI]"]
      np ne by blast
  have r: "read_frames decode_all [] (map Inr half_frame @ [Inl ConnectionResetError, Inr EOI])
       = Inl ConnectionResetError"
    by (rule read_frames_no_pair_raise) (simp_all add: np ne)
  from a np b ne c r d show ?thesis by simp
qed

lemma acquire_refused: "acquire imdecode (Inl e) now = NotAvailable"
  by (simp add: acquire_def get_frame_from_stream_def)

lemma acquire_no_pair:
  "\<not> has_frame_pair (concat chunks) \<Longrightarrow> acquire imdecode (Inr (map Inr chunks)) now = NotAvailable"
  using read_frames_no_pair[of "[]" chunks imdecode]
  by (simp add: acquire_def get_frame_from_stream_def)

section \<open>An end marker before the first start marker\<close>

lemma find_from_short: "length xs < length sub \<Longrightarrow> find_from sub xs i = -1"
proof (induction xs arbitrary: i)
  case Nil
  then show ?case by auto
next
  case (Cons x xs)
  then have "length (take (length sub) (x # xs)) \<noteq> length sub" by simp
  then have "take (length sub) (x # xs) \<noteq> sub" by metis
  with Cons show ?case by simp
qed

lemma take_append_inside: "n \<le> length xs \<Longrightarrow> take n (xs @ ys) = take n xs"
  by simp

lemma find_from_append:
  "find_from sub xs i \<noteq> -1 \<Longrightarrow> find_from sub (xs @ ys) i = find_from sub xs i"
proof (induction xs arbitrary: i)
  case Nil
  then have "sub = []" by (simp split: if_splits)
  then show ?case by (cases ys) simp_all
next
  case (Cons x xs)
  show ?case
  proof (cases "take (length sub) (x # xs) = sub")
    case True
    then have "length (take (length sub) (x # xs)) = length sub" by simp
    then have "length sub \<le> length (x # xs)" by simp
    then have "take (length sub) ((x # xs) @ ys) = take (length sub) (x # xs)"
      by (rule take_append_inside)
    with True show ?thesis by simp
  next
    case False
    with Cons.prems have f: "find_from sub xs (Suc i) \<noteq> -1" by simp
    then have "\<not> length xs < length sub" using find_from_short[of xs sub "Suc i"] by blast
    then have "length sub \<le> length (x # xs)" by simp
    then have "take (length sub) ((x # xs) @ ys) = take (length sub) (x # xs)"
      by (rule take_append_inside)
    with False Cons.IH[OF f] show ?thesis by simp
  qed
qed

lemma bytes_find_append:
  "bytes_find buf sub \<noteq> -1 \<Longrightarrow> bytes_find (buf @ chunk) sub = bytes_find buf sub"
  by (simp add: bytes_find_def find_from_append)

lemma end_before_start_append:
  assumes "end_before_start buf"
  shows "end_before_start (buf @ chunk)"
proof -
  from assms have ef: "bytes_find buf EOI \<noteq> -1" by (simp add: end_before_start_def)
  with bytes_find_cases[of buf EOI]
  obtain e where e: "bytes_find buf EOI = int e" "marker_at EOI buf e" by auto
  from marker_at_length[OF e(2)] have elen: "e + 2 \<le> length buf" by (simp add: EOI_def)
  have e': "bytes_find (buf @ chunk) EOI = int e" using bytes_find_append[OF ef] e by simp
  show ?thesis
  proof (cases "bytes_find (buf @ chunk) SOI = -1")
    case True
    with e' show ?thesis by (simp add: end_before_start_def)
  next
    case False
    with bytes_find_cases[of "buf @ chunk" SOI]
    obtain s where s: "bytes_find (buf @ chunk) SOI = int s" "marker_at SOI (buf @ chunk) s"
      by auto
    have "e < s"
    proof (rule ccontr)
      assume "\<not> e < s"
      then have le: "s \<le> e" by simp
      have "s \<noteq> e"
      proof
        assume "s = e"
        with s(2) marker_at_append[OF e(2), of chunk] show False
          by (simp add: marker_at_def SOI_def EOI_def)
      qed
      with le have "s < e" by simp
      with elen have inside: "s + length SOI \<le> length buf" by (simp add: SOI_def)
      from s(2) marker_at_inside[OF inside, of chunk] have ms: "marker_at SOI buf s" by simp
      from inside have "s \<le> length buf" by simp
      with ms have found: "bytes_find buf SOI \<noteq> -1"
        using find_from_none[of SOI buf 0] by (auto simp: bytes_find_def)
      with bytes_find_cases[of buf SOI]
      obtain t where t: "bytes_find buf SOI = int t" "\<forall>j < t. \<not> marker_at SOI buf j" by auto
      from t(2) ms have "t \<le> s" by (meson not_le_imp_less)
      with \<open>s < e\<close> t(1) e(1) have "bytes_find buf SOI < bytes_find buf EOI" by simp
      with assms found show False by (simp add: end_before_start_def)
    qed
    with e' s(1) show ?thesis by (simp add: end_before_start_def)
  qed
qed

lemma read_frames_end_before_start:
  assumes "end_before_start buf"
  shows "read_frames imdecode buf reads \<noteq> Inr (Some img)"
  using assms
proof (induction reads arbitrary: buf)
  case Nil
  then show ?case by simp
next
  case (Cons r reads)
  show ?case
  proof (cases r)
    case (Inl e)
    then show ?thesis by simp
  next
    case (Inr chunk)
    from end_before_start_append[OF Cons.prems, of chunk]
    have b: "end_before_start (buf @ chunk)" .
    then have t: "\<not> (bytes_find (buf @ chunk) SOI \<noteq> -1 \<and> bytes_find (buf @ chunk) EOI \<noteq> -1
        \<and> bytes_find (buf @ chunk) EOI > bytes_find (buf @ chunk) SOI)"
      by (auto simp: end_before_start_def)
    from Cons.IH[OF b] have "read_frames imdecode (buf @ chunk) reads \<noteq> Inr (Some img)" .
    with Inr t show ?thesis by (auto simp: Let_def)
  qed
qed

lemma joined_mid_frame_blocked: "end_before_start ([] @ joined_mid_frame)"
  by (simp add: end_before_start_def joined_mid_frame_def bytes_find_def SOI_def EOI_def)

text \<open>
  Claim C1 on a buffer that starts with the tail of a frame. The buffer
  \<^verbatim>\<open>FF D9 FF D8 00 FF D9\<close> holds a start marker at index 2 and an end marker at index 5,
  but \<^verbatim>\<open>find\<close> gives the end marker at index 0, before the start marker at index 2: the
  example scripts extract nothing from it, and nothing from any continuation of that
  stream either, and the server-side script hands the empty slice to the decoder.
\<close>

theorem C1_stray_end_marker_blocks_frame:
  "has_frame_pair joined_mid_frame
   \<and> bytes_find joined_mid_frame SOI = 2
   \<and> bytes_find joined_mid_frame EOI = 0
   \<and> get_frame_from_stream imdecode (Inr [Inr joined_mid_frame]) = (None, [])
   \<and> (\<forall>reads img.
        fst (get_frame_from_stream imdecode (Inr (Inr joined_mid_frame # reads))) \<noteq> Some img)
   \<and> server_scan joined_mid_frame = (Some [], [0xFF, 0xD8, 0x00, 0xFF, 0xD9])"
proof -
  have pair: "has_frame_pair joined_mid_frame"
    unfolding has_frame_pair_def marker_at_def
    by (rule exI[of _ 2], rule exI[of _ 5]) (simp add: joined_mid_frame_def SOI_def EOI_def)
  have s: "bytes_find joined_mid_frame SOI = 2" and e: "bytes_find joined_mid_frame EOI = 0"
    by (simp_all add: joined_mid_frame_def bytes_find_def SOI_def EOI_def)
  have one: "get_frame_from_stream imdecode (Inr [Inr joined_mid_frame]) = (None, [])"
    using s e by (simp add: get_frame_from_stream_def joined_mid_frame_def)
  have never: "fst (get_frame_from_stream imdecode (Inr (Inr joined_mid_frame # reads))) \<noteq> Some img"
    for reads img
  proof -
    have ne: "joined_mid_frame \<noteq> []" by (simp add: joined_mid_frame_def)
    have "read_frames imdecode ([] @ joined_mid_frame) reads \<noteq> Inr (Some img)"
      by (rule read_frames_end_before_start[OF joined_mid_frame_blocked])
    then have "read_frames imdecode [] (Inr joined_mid_frame # reads) \<noteq> Inr (Some img)"
      using ne s e by (simp add: Let_def)
    then show ?thesis
      by (auto simp: get_frame_from_stream_def split: sum.splits)
  qed
  have srv: "server_scan joined_mid_frame = (Some [], [0xFF, 0xD8, 0x00, 0xFF, 0xD9])"
    by (simp add: server_scan_def Let_def s e)
      (simp add: joined_mid_frame_def bytes_slice_def bytes_from_def py_index_def)
  from pair s e one never srv show ?thesis by blast
qed

end
